theory Spec2Isabelle
  imports Complex_Main "HOL-Library.Sublist"
begin

section \<open>Exercise classifier (src/components/WorkoutTracker.jsx)\<close>

text \<open>
  JavaScript strings are modelled as \<open>string\<close> (character lists); every name in the
  curated lists is ASCII. \<open>s.includes(e)\<close>, here \<open>str_includes s e\<close>, searches \<open>s\<close> from
  the left for a position at which \<open>e\<close> starts.
\<close>

fun str_includes :: "string \<Rightarrow> string \<Rightarrow> bool" where
  "str_includes [] e = (e = [])"
| "str_includes (c # s) e = (prefix e (c # s) \<or> str_includes s e)"

text \<open>
  The four results \<open>'weighted_duration'\<close>, \<open>'duration'\<close>, \<open>'bodyweight'\<close> and \<open>'weighted'\<close>.
\<close>

datatype exercise_type = WeightedDuration | Duration | Bodyweight | Weighted

definition WEIGHTED_DURATION_EXERCISES :: "string list" where
  "WEIGHTED_DURATION_EXERCISES =
    [''Kettlebell Farmer's March'',
     ''Kettlebell Suitcase Carry'',
     ''Farmer's Walk'',
     ''Farmer's Carry'',
     ''Suitcase Carry'',
     ''Overhead Carry'',
     ''Waiter's Walk'']"

definition DURATION_BASED_EXERCISES :: "string list" where
  "DURATION_BASED_EXERCISES =
    [''Plank'',
     ''TRX Plank Saw'',
     ''Wall Sit'',
     ''Dead Hang'',
     ''L-Sit'',
     ''Hollow Body Hold'',
     ''Flutter Kicks'',
     ''Mountain Climbers'']"

definition BODYWEIGHT_EXERCISES :: "string list" where
  "BODYWEIGHT_EXERCISES =
    [''Pull-Ups'',
     ''Push-Ups'',
     ''TRX Push-Ups'',
     ''Ring Dips'',
     ''Dips'',
     ''Hanging Leg Raises'',
     ''Dead Bug'',
     ''Bird Dog'',
     ''Russian Twists'',
     ''TRX Pike'',
     ''TRX Oblique Crunches'',
     ''TRX Tricep Extensions'',
     ''Neutral Grip Pull-ups'',
     ''Air Squats'',
     ''Burpees'',
     ''Box Jumps'']"

text \<open>\<open>list.some(ex => exerciseName.includes(ex))\<close> is \<open>list_ex (str_includes exerciseName) list\<close>.\<close>

definition getExerciseType :: "string \<Rightarrow> exercise_type" where
  "getExerciseType exerciseName =
    (if list_ex (str_includes exerciseName) WEIGHTED_DURATION_EXERCISES then WeightedDuration
     else if list_ex (str_includes exerciseName) DURATION_BASED_EXERCISES then Duration
     else if list_ex (str_includes exerciseName) BODYWEIGHT_EXERCISES then Bodyweight
     else Weighted)"

text \<open>A name matches a list when some entry of the list occurs in it as a substring.\<close>

definition matches :: "string list \<Rightarrow> string \<Rightarrow> bool" where
  "matches entries exerciseName = (\<exists>e \<in> set entries. sublist e exerciseName)"


section \<open>Workout templates and the session's completion check\<close>

record exercise =
  name :: string
  sets :: nat
  targetReps :: string
  restTime :: nat

record template =
  key :: string
  title :: string
  mandatory :: bool
  exercises :: "exercise list"

definition template_A_push_power :: template where
  "template_A_push_power =
    \<lparr>key = ''A_push_power'',
     title = ''Workout A: Push Day (Strength & Power)'',
     mandatory = True,
     exercises =
     [\<lparr>name = ''Barbell Bench Press'', sets = 4, targetReps = ''5'', restTime = 120\<rparr>,
      \<lparr>name = ''Standing Overhead Press'', sets = 4, targetReps = ''5'', restTime = 90\<rparr>,
      \<lparr>name = ''Incline Dumbbell Press'', sets = 3, targetReps = ''8-12'', restTime = 90\<rparr>,
      \<lparr>name = ''Dumbbell Lateral Raises'', sets = 3, targetReps = ''15-20'', restTime = 60\<rparr>,
      \<lparr>name = ''Ring Dips'', sets = 3, targetReps = ''To Failure'', restTime = 90\<rparr>,
      \<lparr>name = ''TRX Plank Saw'', sets = 3, targetReps = ''30-45 sec'', restTime = 60\<rparr>,
      \<lparr>name = ''Kettlebell Farmer's March'', sets = 3, targetReps = ''30-45 sec'', restTime = 60\<rparr>]\<rparr>"

definition template_A_pull_width :: template where
  "template_A_pull_width =
    \<lparr>key = ''A_pull_width'',
     title = ''Workout A: Pull Day (Width & Thickness)'',
     mandatory = True,
     exercises =
     [\<lparr>name = ''Pull-Ups'', sets = 4, targetReps = ''To Failure'', restTime = 120\<rparr>,
      \<lparr>name = ''Bent-Over Barbell Row'', sets = 4, targetReps = ''5-8'', restTime = 90\<rparr>,
      \<lparr>name = ''Single-Arm Dumbbell Row'', sets = 3, targetReps = ''8-12 per arm'', restTime = 60\<rparr>,
      \<lparr>name = ''Banded Face Pulls'', sets = 3, targetReps = ''15-20'', restTime = 60\<rparr>,
      \<lparr>name = ''Dumbbell Hammer Curls'', sets = 3, targetReps = ''8-12'', restTime = 60\<rparr>,
      \<lparr>name = ''TRX Pike'', sets = 3, targetReps = ''10-15'', restTime = 60\<rparr>,
      \<lparr>name = ''Kettlebell Goblet Squat'', sets = 3, targetReps = ''10-12'', restTime = 90\<rparr>]\<rparr>"

definition template_B_push_hyp :: template where
  "template_B_push_hyp =
    \<lparr>key = ''B_push_hyp'',
     title = ''Workout B: Push Day (Hypertrophy & Definition)'',
     mandatory = True,
     exercises =
     [\<lparr>name = ''Seated Dumbbell Press'', sets = 4, targetReps = ''8-12'', restTime = 90\<rparr>,
      \<lparr>name = ''TRX Push-Ups'', sets = 3, targetReps = ''To Failure'', restTime = 60\<rparr>,
      \<lparr>name = ''Dumbbell Flyes'', sets = 3, targetReps = ''12-15'', restTime = 60\<rparr>,
      \<lparr>name = ''Bent-Over Rear Delt Flyes'', sets = 3, targetReps = ''15-20'', restTime = 60\<rparr>,
      \<lparr>name = ''TRX Tricep Extensions'', sets = 3, targetReps = ''12-15'', restTime = 60\<rparr>,
      \<lparr>name = ''TRX Oblique Crunches'', sets = 3, targetReps = ''10-12 per side'', restTime = 60\<rparr>,
      \<lparr>name = ''Kettlebell Swings'', sets = 3, targetReps = ''15-20'', restTime = 90\<rparr>]\<rparr>"

definition template_B_pull_strength :: template where
  "template_B_pull_strength =
    \<lparr>key = ''B_pull_strength'',
     title = ''Workout B: Pull Day (Strength & Function)'',
     mandatory = True,
     exercises =
     [\<lparr>name = ''Barbell Deadlift'', sets = 4, targetReps = ''5'', restTime = 180\<rparr>,
      \<lparr>name = ''T-Bar Row'', sets = 4, targetReps = ''8-10'', restTime = 90\<rparr>,
      \<lparr>name = ''Neutral Grip Pull-ups'', sets = 3, targetReps = ''To Failure'', restTime = 90\<rparr>,
      \<lparr>name = ''Dumbbell Shrugs'', sets = 3, targetReps = ''12-15'', restTime = 60\<rparr>,
      \<lparr>name = ''Kettlebell Bicep Curls'', sets = 3, targetReps = ''10-15'', restTime = 60\<rparr>,
      \<lparr>name = ''TRX Hamstring Runners'', sets = 3, targetReps = ''10-15'', restTime = 60\<rparr>,
      \<lparr>name = ''Kettlebell Suitcase Carry'', sets = 3, targetReps = ''30 sec per side'', restTime = 60\<rparr>]\<rparr>"

definition template_C_leg_day :: template where
  "template_C_leg_day =
    \<lparr>key = ''C_leg_day'',
     title = ''Workout C: Leg Day (Foundation & Power)'',
     mandatory = True,
     exercises =
     [\<lparr>name = ''Barbell Back Squat'', sets = 4, targetReps = ''6-8'', restTime = 180\<rparr>,
      \<lparr>name = ''Dumbbell Lunges'', sets = 3, targetReps = ''10-12 per leg'', restTime = 90\<rparr>,
      \<lparr>name = ''Kettlebell Swings'', sets = 4, targetReps = ''15-20'', restTime = 90\<rparr>,
      \<lparr>name = ''Kettlebell Goblet Squat'', sets = 3, targetReps = ''10-12'', restTime = 90\<rparr>,
      \<lparr>name = ''Box Jumps'', sets = 3, targetReps = ''5'', restTime = 120\<rparr>]\<rparr>"

definition template_D_core_circuit :: template where
  "template_D_core_circuit =
    \<lparr>key = ''D_core_circuit'',
     title = ''Workout D: Core Overload Circuit'',
     mandatory = True,
     exercises =
     [\<lparr>name = ''TRX Knee Tucks'', sets = 3, targetReps = ''15'', restTime = 90\<rparr>,
      \<lparr>name = ''Barbell Landmine Anti-Rotation'', sets = 3, targetReps = ''10 per side'', restTime = 90\<rparr>,
      \<lparr>name = ''Medicine Ball Slams'', sets = 3, targetReps = ''12'', restTime = 90\<rparr>,
      \<lparr>name = ''BOSU Ball Plank'', sets = 3, targetReps = ''45 sec'', restTime = 90\<rparr>,
      \<lparr>name = ''Kettlebell Suitcase Carry'', sets = 3, targetReps = ''30 sec per side'', restTime = 90\<rparr>]\<rparr>"

definition template_optional_core_activation :: template where
  "template_optional_core_activation =
    \<lparr>key = ''optional_core_activation'',
     title = ''Optional: Core Activation & Full Body Stretch'',
     mandatory = False,
     exercises =
     [\<lparr>name = ''Dead Bug'', sets = 2, targetReps = ''10 per side'', restTime = 45\<rparr>,
      \<lparr>name = ''Bird Dog'', sets = 2, targetReps = ''10 per side'', restTime = 45\<rparr>,
      \<lparr>name = ''Plank'', sets = 2, targetReps = ''45-60 sec'', restTime = 60\<rparr>,
      \<lparr>name = ''Wall Sit'', sets = 2, targetReps = ''30-60 sec'', restTime = 60\<rparr>,
      \<lparr>name = ''Mountain Climbers'', sets = 2, targetReps = ''30 sec'', restTime = 45\<rparr>]\<rparr>"

definition DEFAULT_TEMPLATES :: "template list" where
  "DEFAULT_TEMPLATES =
    [template_A_push_power,
     template_A_pull_width,
     template_B_push_hyp,
     template_B_pull_strength,
     template_C_leg_day,
     template_D_core_circuit,
     template_optional_core_activation]"

text \<open>
  A set record holds what the inputs of a row wrote: each field is the text of an input
  (\<open>e.target.value\<close>), or absent when the record was created without it. A JavaScript
  string is truthy when it is not empty; an absent field is \<open>undefined\<close>, which is falsy.
\<close>

record set_record =
  weight :: "string option"
  reps :: "string option"
  duration :: "string option"
  comment :: "string option"

definition truthy :: "string option \<Rightarrow> bool" where
  "truthy v = (case v of None \<Rightarrow> False | Some s \<Rightarrow> s \<noteq> [])"

text \<open>An RPE rating is a number; a number is truthy when it is not zero.\<close>

definition truthy_num :: "nat option \<Rightarrow> bool" where
  "truthy_num v = (case v of None \<Rightarrow> False | Some n \<Rightarrow> n \<noteq> 0)"

text \<open>
  The effect "Check if workout is complete" of \<open>WorkoutTracker\<close>; its result is the value
  given to \<open>setWorkoutComplete\<close>. \<open>workoutData[ex.name] || []\<close> is the lookup with the empty
  list as default.
\<close>

definition workoutComplete ::
  "template \<Rightarrow> (string \<rightharpoonup> set_record list) \<Rightarrow> (string \<rightharpoonup> nat) \<Rightarrow> string list \<Rightarrow> bool" where
  "workoutComplete template workoutData exerciseRPEs skippedExercises =
    (let allExercisesComplete =
           list_all (\<lambda>ex.
             let ss = (case workoutData (name ex) of None \<Rightarrow> [] | Some l \<Rightarrow> l);
                 completedSets = length (filter (\<lambda>s. truthy (weight s) \<and> truthy (reps s)) ss)
             in completedSets = sets ex \<or> name ex \<in> set skippedExercises)
           (exercises template);
         allRPEsRecorded =
           list_all (\<lambda>ex.
             truthy_num (exerciseRPEs (name ex)) \<or> name ex \<in> set skippedExercises)
           (exercises template)
     in allExercisesComplete \<and> allRPEsRecorded)"

text \<open>\<open>isSetComplete\<close> of \<open>ExerciseRow\<close>: the per-set rule that colours a row.\<close>

definition isSetComplete :: "string \<Rightarrow> set_record \<Rightarrow> bool" where
  "isSetComplete exerciseName s =
    (let exerciseType = getExerciseType exerciseName
     in if exerciseType = WeightedDuration then truthy (weight s) \<and> truthy (duration s)
        else if exerciseType = Duration then truthy (duration s)
        else if exerciseType = Bodyweight then truthy (weight s) \<and> truthy (reps s)
        else truthy (weight s) \<and> truthy (reps s))"

text \<open>
  The completion predicate in the specification's words, for comparison with
  \<open>workoutComplete\<close>: every exercise is skipped or has \<open>sets\<close> records complete under its
  tracking type's rule, and every exercise is skipped or has an RPE entry.
\<close>

definition isComplete_spec ::
  "template \<Rightarrow> (string \<rightharpoonup> set_record list) \<Rightarrow> (string \<rightharpoonup> nat) \<Rightarrow> string list \<Rightarrow> bool" where
  "isComplete_spec template workoutData exerciseRPEs skippedExercises =
    list_all (\<lambda>ex.
      (name ex \<in> set skippedExercises
       \<or> length (filter (isSetComplete (name ex))
                   (case workoutData (name ex) of None \<Rightarrow> [] | Some l \<Rightarrow> l)) = sets ex)
      \<and> (name ex \<in> set skippedExercises \<or> exerciseRPEs (name ex) \<noteq> None))
    (exercises template)"

section \<open>The session state and its writers (WorkoutTracker, ExerciseRow)\<close>

text \<open>
  The part of the state of \<open>WorkoutTracker\<close> that the completion check reads, with the
  bodyweight field, which fills the weight of bodyweight rows, and the index of the
  template on screen.
\<close>

record session =
  activeTemplate :: nat
  workoutData :: "string \<rightharpoonup> set_record list"
  exerciseRPEs :: "string \<rightharpoonup> nat"
  skippedExercises :: "string list"
  bodyweight :: string

text \<open>
  The set records that an exercise starts with, by tracking type; the source writes them
  out in the effect "Initialize workout data when template changes" and again for the rows
  of an exercise without data. \<open>bodyweight || ''\<close> is the bodyweight field itself.
\<close>

definition initialSets :: "string \<Rightarrow> exercise \<Rightarrow> set_record list" where
  "initialSets bw ex =
    (let exerciseType = getExerciseType (name ex)
     in if exerciseType = WeightedDuration then
          replicate (sets ex)
            \<lparr>weight = Some '''', reps = None, duration = Some '''', comment = Some ''''\<rparr>
        else if exerciseType = Duration then
          replicate (sets ex)
            \<lparr>weight = None, reps = None, duration = Some '''', comment = Some ''''\<rparr>
        else if exerciseType = Bodyweight then
          replicate (sets ex)
            \<lparr>weight = Some bw, reps = Some '''', duration = None, comment = Some ''''\<rparr>
        else
          replicate (sets ex)
            \<lparr>weight = Some '''', reps = Some '''', duration = None, comment = Some ''''\<rparr>)"

text \<open>
  The effect "Initialize workout data when template changes": every exercise of the
  template without data gets its initial set records; data already there is kept.
\<close>

definition initWorkoutData :: "template \<Rightarrow> session \<Rightarrow> session" where
  "initWorkoutData template s =
    (let initData =
           fold (\<lambda>ex initData.
                  if workoutData s (name ex) = None
                  then initData(name ex \<mapsto> initialSets (bodyweight s) ex)
                  else initData)
             (exercises template) Map.empty
     in s\<lparr>workoutData := workoutData s ++ initData\<rparr>)"

text \<open>
  The effect "Update bodyweight exercises when bodyweight changes": with a non-empty
  bodyweight, every set of a bodyweight exercise of the template that has data gets the
  bodyweight as its weight unless it has a weight of its own (\<open>set.weight || bodyweight\<close>).
\<close>

definition bodyweightEffect :: "template \<Rightarrow> session \<Rightarrow> session" where
  "bodyweightEffect template s =
    (if bodyweight s \<noteq> [] then
       let updatedData =
             fold (\<lambda>ex updatedData.
                    if getExerciseType (name ex) = Bodyweight then
                      (case workoutData s (name ex) of
                         None \<Rightarrow> updatedData
                       | Some ss \<Rightarrow>
                           updatedData(name ex \<mapsto>
                             map (\<lambda>r. r\<lparr>weight :=
                                     (if truthy (weight r) then weight r
                                      else Some (bodyweight s))\<rparr>) ss))
                    else updatedData)
               (exercises template) Map.empty
       in s\<lparr>workoutData := workoutData s ++ updatedData\<rparr>
     else s)"

text \<open>
  \<open>updateSet\<close>: the set record at \<open>setIndex\<close> of the exercise is replaced. It is called by
  the inputs of a rendered set row only, so with the index of a record that is there.
\<close>

definition updateSet :: "string \<Rightarrow> nat \<Rightarrow> set_record \<Rightarrow> session \<Rightarrow> session" where
  "updateSet exerciseName setIndex r s =
    s\<lparr>workoutData := (workoutData s)(exerciseName \<mapsto>
        (case workoutData s exerciseName of None \<Rightarrow> [] | Some l \<Rightarrow> l)[setIndex := r])\<rparr>"

text \<open>
  The inputs of a set row of \<open>ExerciseRow\<close>, by tracking type: weight and seconds for a
  weighted-duration exercise, seconds for a duration exercise, weight and reps for the
  other two, and the comment for all. An input writes \<open>{ ...set, field: e.target.value }\<close>.
\<close>

datatype input = WeightInput | RepsInput | DurationInput | CommentInput

definition rowInputs :: "exercise_type \<Rightarrow> input list" where
  "rowInputs exerciseType =
    (if exerciseType = WeightedDuration then [WeightInput, DurationInput, CommentInput]
     else if exerciseType = Duration then [DurationInput, CommentInput]
     else if exerciseType = Bodyweight then [WeightInput, RepsInput, CommentInput]
     else [WeightInput, RepsInput, CommentInput])"

definition writeInput :: "input \<Rightarrow> string \<Rightarrow> set_record \<Rightarrow> set_record" where
  "writeInput i v r =
    (case i of
       WeightInput \<Rightarrow> r\<lparr>weight := Some v\<rparr>
     | RepsInput \<Rightarrow> r\<lparr>reps := Some v\<rparr>
     | DurationInput \<Rightarrow> r\<lparr>duration := Some v\<rparr>
     | CommentInput \<Rightarrow> r\<lparr>comment := Some v\<rparr>)"

text \<open>
  \<open>ExerciseRow\<close> shows the RPE scale when \<open>isComplete && !exerciseRPE\<close>, where \<open>isComplete\<close>
  compares the number of sets with weight and reps to the exercise's target. The scale is
  the only place that calls \<open>onSetExerciseRPE\<close>, and its ten buttons give the values 1 to 10.
\<close>

definition showRPEScale :: "exercise \<Rightarrow> set_record list \<Rightarrow> nat option \<Rightarrow> bool" where
  "showRPEScale ex ss exerciseRPE =
    (let completedSets = length (filter (\<lambda>s. truthy (weight s) \<and> truthy (reps s)) ss);
         isComplete = (completedSets = sets ex)
     in isComplete \<and> \<not> truthy_num exerciseRPE)"

definition onSetExerciseRPE :: "string \<Rightarrow> nat \<Rightarrow> session \<Rightarrow> session" where
  "onSetExerciseRPE n v s = s\<lparr>exerciseRPEs := (exerciseRPEs s)(n \<mapsto> v)\<rparr>"

definition skipExercise :: "string \<Rightarrow> session \<Rightarrow> session" where
  "skipExercise exerciseName s =
    s\<lparr>skippedExercises :=
        (if exerciseName \<in> set (skippedExercises s) then skippedExercises s
         else skippedExercises s @ [exerciseName])\<rparr>"

text \<open>
  What the user can do to a session, each with the state writes it causes. These are all
  the callers of \<open>setWorkoutData\<close>, \<open>setExerciseRPEs\<close> and \<open>setSkippedExercises\<close>:

    \<^item> choosing the template at an index of the catalog, followed by the initialisation
      effect;
    \<^item> typing a bodyweight, followed, when the value has changed, by the bodyweight effect
      for the template on screen;
    \<^item> typing into an input of a set row of an exercise of the template on screen;
    \<^item> pressing a button of the RPE scale of such an exercise, while the scale is shown;
    \<^item> skipping such an exercise;
    \<^item> dismissing the list of skipped exercises.

  An event that the screen does not offer in the state has no result. The rows of an
  exercise are its records in \<open>workoutData\<close>; the initialisation effect has run before any
  input is handled, so an exercise on screen has them.
\<close>

datatype event =
    SelectTemplate nat
  | ChangeBodyweight string
  | ChangeInput nat nat input string
  | SelectRPE nat nat
  | SkipExercise nat
  | ClearSkipped

definition apply_event :: "template list \<Rightarrow> event \<Rightarrow> session \<Rightarrow> session option" where
  "apply_event templates e s =
    (let template = templates ! activeTemplate s
     in case e of
          SelectTemplate i \<Rightarrow>
            if i < length templates
            then Some (initWorkoutData (templates ! i) (s\<lparr>activeTemplate := i\<rparr>))
            else None
        | ChangeBodyweight b \<Rightarrow>
            if b = bodyweight s then Some s
            else Some (bodyweightEffect template (s\<lparr>bodyweight := b\<rparr>))
        | ChangeInput j i f v \<Rightarrow>
            if j < length (exercises template) then
              (let ex = exercises template ! j
               in case workoutData s (name ex) of
                    None \<Rightarrow> None
                  | Some ss \<Rightarrow>
                      if i < length ss \<and> f \<in> set (rowInputs (getExerciseType (name ex)))
                      then Some (updateSet (name ex) i (writeInput f v (ss ! i)) s)
                      else None)
            else None
        | SelectRPE j v \<Rightarrow>
            if j < length (exercises template) then
              (let ex = exercises template ! j;
                   ss = (case workoutData s (name ex) of
                           None \<Rightarrow> initialSets (bodyweight s) ex
                         | Some l \<Rightarrow> l)
               in if showRPEScale ex ss (exerciseRPEs s (name ex)) \<and> 1 \<le> v \<and> v \<le> 10
                  then Some (onSetExerciseRPE (name ex) v s)
                  else None)
            else None
        | SkipExercise j \<Rightarrow>
            if j < length (exercises template)
            then Some (skipExercise (name (exercises template ! j)) s)
            else None
        | ClearSkipped \<Rightarrow> Some (s\<lparr>skippedExercises := []\<rparr>))"

fun apply_events :: "template list \<Rightarrow> event list \<Rightarrow> session \<Rightarrow> session option" where
  "apply_events templates [] s = Some s"
| "apply_events templates (e # es) s =
    (case apply_event templates e s of
       None \<Rightarrow> None
     | Some s' \<Rightarrow> apply_events templates es s')"

text \<open>
  The session when the component has mounted: the first template of the catalog on
  screen, initialised, nothing entered.
\<close>

definition initialSession :: "template list \<Rightarrow> session" where
  "initialSession templates =
    initWorkoutData (templates ! 0)
      \<lparr>activeTemplate = 0, workoutData = Map.empty, exerciseRPEs = Map.empty,
       skippedExercises = [], bodyweight = ''''\<rparr>"

section \<open>Client-side cycle tracker (the cycle effect of WorkoutTracker)\<close>

text \<open>
  The value stored under \<open>'current_cycle'\<close> in local storage, and the value written
  under \<open>'cycle_complete'\<close> when a cycle closes (its date and user id are left out).
\<close>

record cycle =
  completed :: "string list"
  selectedWorkouts :: "string list"

datatype cycle_complete =
  CycleComplete (cc_workouts: "string list") (cc_selectedWorkouts: "string list")

text \<open>
  \<open>includeInAnalysis\<close> maps a template key to a boolean, or to nothing (\<open>undefined\<close>):
  \<open>!== false\<close> holds of \<open>undefined\<close> and \<open>true\<close>, \<open>=== true\<close> of \<open>true\<close> only.
\<close>

definition isIncluded :: "(string \<rightharpoonup> bool) \<Rightarrow> template \<Rightarrow> bool" where
  "isIncluded includeInAnalysis t =
    ((mandatory t \<and> includeInAnalysis (key t) \<noteq> Some False)
     \<or> (\<not> mandatory t \<and> includeInAnalysis (key t) = Some True))"

definition selectedKeys :: "template list \<Rightarrow> (string \<rightharpoonup> bool) \<Rightarrow> string list" where
  "selectedKeys templates includeInAnalysis =
    map key (filter (isIncluded includeInAnalysis) templates)"

text \<open>
  The default of the \<open>includeInAnalysis\<close> state when nothing is saved:
  \<open>defaults[t.key] = t.mandatory\<close> for every template in turn.
\<close>

definition defaultIncludeInAnalysis :: "template list \<Rightarrow> (string \<rightharpoonup> bool)" where
  "defaultIncludeInAnalysis templates =
    fold (\<lambda>t defaults. defaults(key t \<mapsto> mandatory t)) templates Map.empty"

text \<open>
  "Update selected workouts if they changed": the stored list and the new one are
  compared through \<open>JSON.stringify\<close>, which is injective on arrays of strings, so the
  comparison is that of the two lists.
\<close>

definition resetIfSelectionChanged :: "string list \<Rightarrow> cycle \<Rightarrow> cycle" where
  "resetIfSelectionChanged selected currentCycle =
    (if selectedWorkouts currentCycle \<noteq> selected
     then currentCycle\<lparr>completed := [], selectedWorkouts := selected\<rparr>
     else currentCycle)"

text \<open>
  One run of the effect "Check cycle completion based on selected workouts for analysis".
  The state is the content of \<open>'current_cycle'\<close> (\<open>None\<close> when the key is not set); the
  result is the new content and the \<open>'cycle_complete'\<close> record, if this run wrote one.
\<close>

definition cycleEffect ::
  "template list \<Rightarrow> (string \<rightharpoonup> bool) \<Rightarrow> bool \<Rightarrow> template \<Rightarrow> cycle option
    \<Rightarrow> cycle option \<times> cycle_complete option" where
  "cycleEffect templates includeInAnalysis workoutIsComplete template stored =
    (if \<not> workoutIsComplete then (stored, None)
     else if \<not> isIncluded includeInAnalysis template then (stored, None)
     else
       let selected = selectedKeys templates includeInAnalysis;
           loaded = (case stored of
                       Some c \<Rightarrow> c
                     | None \<Rightarrow> \<lparr>completed = [], selectedWorkouts = selected\<rparr>);
           currentCycle = resetIfSelectionChanged selected loaded
       in if key template \<notin> set (completed currentCycle) then
            let pushed = currentCycle\<lparr>completed := completed currentCycle @ [key template]\<rparr>;
                allSelectedComplete = list_all (\<lambda>k. k \<in> set (completed pushed)) selected
            in if allSelectedComplete \<and> 0 < length selected
               then (Some \<lparr>completed = [], selectedWorkouts = selected\<rparr>,
                     Some (CycleComplete (completed pushed) selected))
               else (Some pushed, None)
          else (stored, None))"


section \<open>Backend cycle tracker (WorkoutService, dynamodb-schema.js, workoutAPI.js)\<close>

text \<open>
  The DynamoDB table is modelled by the items the service reads and writes: the workout
  items by sort key, the item \<open>CYCLE#CURRENT\<close>, the cycle archives by cycle number (the sort
  key \<open>CYCLE#<padded number>\<close> is injective in the number) and the cycle numbers of the
  analyses saved so far. Store calls are taken to succeed; timestamps (\<open>startDate\<close>,
  \<open>createdAt\<close>, \<open>endDate\<close>) are left out. The fields a workout carries unchanged
  (\<open>bodyweight\<close>, \<open>sessionNotes\<close>, \<open>exercises\<close>, \<open>exerciseRPEs\<close>) are one opaque payload.
\<close>

record current_cycle =
  cycleNumber :: nat
  completedWorkouts :: "string list"
  remainingWorkouts :: "string list"

record cycle_archive =
  archive_cycleNumber :: nat
  archive_workouts :: "string list"

record 'p workout_item =
  date :: string
  templateKey :: string
  payload :: 'p
  isOptional :: bool
  item_completed :: bool

record 'p table =
  workout_items :: "string \<rightharpoonup> 'p workout_item"
  current :: "current_cycle option"
  archive_items :: "nat \<rightharpoonup> cycle_archive"
  analysis_items :: "nat list"

text \<open>\<open>ItemSchemas.currentCycle\<close> and \<open>DBHelpers.workoutKey\<close> of dynamodb-schema.js.\<close>

definition ItemSchemas_currentCycle :: "nat \<Rightarrow> current_cycle" where
  "ItemSchemas_currentCycle n =
    \<lparr>cycleNumber = n,
     completedWorkouts = [],
     remainingWorkouts = [''A_push_power'', ''A_pull_width'', ''B_push_hyp'', ''B_pull_strength'']\<rparr>"

definition workoutKey :: "string \<Rightarrow> string \<Rightarrow> string" where
  "workoutKey d k = ''WORKOUT#'' @ d @ ''#'' @ k"

text \<open>The list \<open>mandatoryWorkouts\<close>, written out in \<open>updateCycleProgress\<close> and in \<open>checkCycleCompletion\<close>.\<close>

definition mandatoryWorkouts :: "string list" where
  "mandatoryWorkouts = [''A_push_power'', ''A_pull_width'', ''B_push_hyp'', ''B_pull_strength'']"

definition getCurrentCycle :: "'p table \<Rightarrow> current_cycle \<times> 'p table" where
  "getCurrentCycle tbl =
    (case current tbl of
       None \<Rightarrow> (let newCycle = ItemSchemas_currentCycle 1
                in (newCycle, tbl\<lparr>current := Some newCycle\<rparr>))
     | Some item \<Rightarrow> (item, tbl))"

definition completeCycle :: "current_cycle \<Rightarrow> 'p table \<Rightarrow> 'p table" where
  "completeCycle c tbl =
    tbl\<lparr>archive_items := (archive_items tbl)(cycleNumber c \<mapsto>
      \<lparr>archive_cycleNumber = cycleNumber c, archive_workouts = completedWorkouts c\<rparr>)\<rparr>"

record progress =
  cycleComplete :: bool
  newCycleNumber :: "nat option"

definition updateCycleProgress :: "string \<Rightarrow> 'p table \<Rightarrow> progress \<times> 'p table" where
  "updateCycleProgress k tbl =
    (let (loaded, tbl1) = getCurrentCycle tbl
     in if k \<notin> set (completedWorkouts loaded) then
          let currentCycle =
                loaded\<lparr>completedWorkouts := completedWorkouts loaded @ [k],
                       remainingWorkouts := filter (\<lambda>w. w \<noteq> k) (remainingWorkouts loaded)\<rparr>;
              isComplete = list_all (\<lambda>w. w \<in> set (completedWorkouts currentCycle)) mandatoryWorkouts
          in if isComplete then
               let tbl2 = completeCycle currentCycle tbl1;
                   newCycle = ItemSchemas_currentCycle (cycleNumber currentCycle + 1)
               in (\<lparr>cycleComplete = True, newCycleNumber = Some (cycleNumber newCycle)\<rparr>,
                   tbl2\<lparr>current := Some newCycle\<rparr>)
             else (\<lparr>cycleComplete = False, newCycleNumber = None\<rparr>,
                   tbl1\<lparr>current := Some currentCycle\<rparr>)
        else (\<lparr>cycleComplete = False, newCycleNumber = None\<rparr>, tbl1))"

text \<open>
  \<open>saveWorkout\<close> puts the workout item and, unless the workout is optional, updates the
  cycle; the result of \<open>updateCycleProgress\<close> is dropped, as in the source.
\<close>

definition saveWorkout ::
  "string \<Rightarrow> string \<Rightarrow> 'p \<Rightarrow> bool \<Rightarrow> 'p table \<Rightarrow> 'p workout_item \<times> 'p table" where
  "saveWorkout d k p optional tbl =
    (let workout = \<lparr>date = d, templateKey = k, payload = p, isOptional = optional,
                     item_completed = True\<rparr>;
         tbl1 = tbl\<lparr>workout_items := (workout_items tbl)(workoutKey d k \<mapsto> workout)\<rparr>
     in if \<not> optional then (workout, snd (updateCycleProgress k tbl1))
        else (workout, tbl1))"

definition checkCycleCompletion :: "'p table \<Rightarrow> bool \<times> 'p table" where
  "checkCycleCompletion tbl =
    (let (currentCycle, tbl1) = getCurrentCycle tbl
     in (list_all (\<lambda>w. w \<in> set (completedWorkouts currentCycle)) mandatoryWorkouts, tbl1))"

text \<open>
  The handler of \<open>POST /workouts\<close>. The request's \<open>isOptional\<close> is a boolean or absent
  (\<open>None\<close>); \<open>isOptional || false\<close> and \<open>!isOptional\<close> read its truthiness. When the cycle is
  found complete the handler has the cycle analysed and saves the analysis under the
  current cycle number; what the analysis says is outside the model, the response records
  only that there is one.
\<close>

record 'p response =
  success :: bool
  workout :: "'p workout_item"
  res_cycleComplete :: bool
  analysis :: bool

definition postWorkouts ::
  "string \<Rightarrow> string \<Rightarrow> 'p \<Rightarrow> bool option \<Rightarrow> 'p table \<Rightarrow> 'p response \<times> 'p table" where
  "postWorkouts k d p isOptionalField tbl =
    (let optional = (isOptionalField = Some True);
         (saved, tbl1) = saveWorkout d k p optional tbl
     in if \<not> optional then
          let (complete_now, tbl2) = checkCycleCompletion tbl1
          in if complete_now then
               let (currentCycle, tbl3) = getCurrentCycle tbl2
               in (\<lparr>success = True, workout = saved, res_cycleComplete = True, analysis = True\<rparr>,
                   tbl3\<lparr>analysis_items := analysis_items tbl3 @ [cycleNumber currentCycle]\<rparr>)
             else (\<lparr>success = True, workout = saved, res_cycleComplete = False, analysis = False\<rparr>,
                   tbl2)
        else (\<lparr>success = True, workout = saved, res_cycleComplete = False, analysis = False\<rparr>,
              tbl1))"

text \<open>Saving workouts one after the other through \<open>updateCycleProgress\<close>: the results in order.\<close>

fun updateCycleProgresses :: "string list \<Rightarrow> 'p table \<Rightarrow> (progress \<times> 'p table) list" where
  "updateCycleProgresses [] tbl = []"
| "updateCycleProgresses (k # ks) tbl =
    (let r = updateCycleProgress k tbl in r # updateCycleProgresses ks (snd r))"

section \<open>RPE trend (ClaudeAnalysisService.calculateTrend)\<close>

text \<open>
  JavaScript numbers are IEEE 754 doubles. A finite double is modelled by the rational
  it denotes; \<open>to_double\<close> rounds a rational to the nearest double (53 significant bits,
  ties to the even significand), and each arithmetic operation of the source is the exact
  operation followed by that rounding. Overflow and subnormal numbers are left out: they
  need magnitudes beyond \<open>2^1023\<close> or below \<open>2^-1022\<close>.
\<close>

fun ilog2 :: "nat \<Rightarrow> nat" where
  "ilog2 n = (if n < 2 then 0 else Suc (ilog2 (n div 2)))"

definition pow2 :: "int \<Rightarrow> rat" where
  "pow2 e = (if 0 \<le> e then 2 ^ nat e else 1 / 2 ^ nat (- e))"

text \<open>The exponent \<open>e\<close> with \<open>2^e \<le> |x| < 2^(e+1)\<close>, for \<open>x \<noteq> 0\<close>.\<close>

definition binade :: "rat \<Rightarrow> int" where
  "binade x =
    (if 1 \<le> \<bar>x\<bar> then int (ilog2 (nat \<lfloor>\<bar>x\<bar>\<rfloor>))
     else - int (ilog2 (nat (\<lceil>1 / \<bar>x\<bar>\<rceil> - 1))) - 1)"

definition round_half_even :: "rat \<Rightarrow> int" where
  "round_half_even x =
    (let f = \<lfloor>x\<rfloor>; r = x - of_int f
     in if r < 1 / 2 then f
        else if 1 / 2 < r then f + 1
        else if even f then f else f + 1)"

definition to_double :: "rat \<Rightarrow> rat" where
  "to_double x =
    (if x = 0 then 0
     else let ulp = pow2 (binade x - 52)
          in of_int (round_half_even (x / ulp)) * ulp)"

definition js_add :: "rat \<Rightarrow> rat \<Rightarrow> rat" where
  "js_add a b = to_double (a + b)"

definition js_sub :: "rat \<Rightarrow> rat \<Rightarrow> rat" where
  "js_sub a b = to_double (a - b)"

definition js_div :: "rat \<Rightarrow> rat \<Rightarrow> rat" where
  "js_div a b = to_double (a / b)"

text \<open>\<open>xs.reduce((a, b) => a + b, 0) / xs.length\<close>, on a non-empty list of ratings.\<close>

definition average :: "nat list \<Rightarrow> rat" where
  "average xs = js_div (fold (\<lambda>b a. js_add a b) (map of_nat xs) 0) (of_nat (length xs))"

datatype trend = stable | increasing | decreasing

definition calculateTrend :: "nat list \<Rightarrow> trend" where
  "calculateTrend vs =
    (if length vs < 2 then stable
     else
       let firstHalf = take (length vs div 2) vs;
           secondHalf = drop (length vs div 2) vs;
           firstAvg = average firstHalf;
           secondAvg = average secondHalf
       in if 1 / 2 < js_sub secondAvg firstAvg then increasing
          else if 1 / 2 < js_sub firstAvg secondAvg then decreasing
          else stable)"

text \<open>The arithmetic mean of the ratings in exact arithmetic, for comparison.\<close>

definition mean :: "nat list \<Rightarrow> rat" where
  "mean xs = of_nat (sum_list xs) / of_nat (length xs)"

section \<open>Response parser (ClaudeAnalysisService.parseClaudeResponse)\<close>

text \<open>
  \<open>responseText.match(/\{[\s\S]*\}/)\<close>: the match starts at the first opening brace and,
  the star being greedy, ends at the last closing brace after it; there is no match when
  no closing brace follows the first opening one.
\<close>

definition jsonMatch :: "string \<Rightarrow> string option" where
  "jsonMatch responseText =
    (let fromBrace = dropWhile (\<lambda>c. c \<noteq> CHR ''{'') responseText;
         toBrace = rev (dropWhile (\<lambda>c. c \<noteq> CHR ''}'') (rev fromBrace))
     in if toBrace = [] then None else Some toBrace)"

record overall_assessment =
  fatigue_level :: string
  progress_rate :: string
  summary :: string

record default_structure =
  overall_assessment :: overall_assessment
  raw_response :: string
  error :: string

text \<open>
  The parser returns what \<open>JSON.parse\<close> returns, or the default structure. \<open>JSON.parse\<close> is
  the platform's: it is a parameter here, \<open>None\<close> standing for the \<open>SyntaxError\<close> it throws.
\<close>

datatype 'j parsed = Json 'j | DefaultStructure default_structure

definition parseClaudeResponse :: "(string \<Rightarrow> 'j option) \<Rightarrow> string \<Rightarrow> 'j parsed" where
  "parseClaudeResponse JSON_parse responseText =
    (let fallback = DefaultStructure
           \<lparr>overall_assessment =
              \<lparr>fatigue_level = ''moderate'',
               progress_rate = ''optimal'',
               summary = ''Analysis completed but response parsing failed''\<rparr>,
            raw_response = responseText,
            error = ''Failed to parse structured response''\<rparr>
     in case jsonMatch responseText of
          Some m \<Rightarrow> (case JSON_parse m of Some j \<Rightarrow> Json j | None \<Rightarrow> fallback)
        | None \<Rightarrow> (case JSON_parse responseText of Some j \<Rightarrow> Json j | None \<Rightarrow> fallback))"

text \<open>The text that is handed to \<open>JSON.parse\<close>.\<close>

definition parsedText :: "string \<Rightarrow> string" where
  "parsedText responseText =
    (case jsonMatch responseText of Some m \<Rightarrow> m | None \<Rightarrow> responseText)"

section \<open>Concrete inputs used below\<close>

text \<open>
  A session of the catalog's Workout D. Weight and reps are entered for the three sets of
  each weighted exercise, which is then rated on the RPE scale; seconds are entered for
  the plank, weight and seconds for the carry, and these two are skipped, their rows
  never showing the scale. First the events, then the state they lead to.
\<close>

definition enter_sets :: "nat \<Rightarrow> (input \<times> string) list \<Rightarrow> event list" where
  "enter_sets j entries =
    concat (map (\<lambda>i. map (\<lambda>(f, v). ChangeInput j i f v) entries) [0..<3])"

definition core_circuit_events :: "event list" where
  "core_circuit_events =
    [SelectTemplate 5]
    @ enter_sets 0 [(WeightInput, ''20''), (RepsInput, ''12'')] @ [SelectRPE 0 7]
    @ enter_sets 1 [(WeightInput, ''20''), (RepsInput, ''12'')] @ [SelectRPE 1 8]
    @ enter_sets 2 [(WeightInput, ''20''), (RepsInput, ''12'')] @ [SelectRPE 2 7]
    @ enter_sets 3 [(DurationInput, ''45'')]
    @ enter_sets 4 [(WeightInput, ''35''), (DurationInput, ''30'')]
    @ [SkipExercise 3, SkipExercise 4]"

definition weighted_set :: set_record where
  "weighted_set = \<lparr>weight = Some ''20'', reps = Some ''12'', duration = None, comment = Some ''''\<rparr>"

definition timed_set :: set_record where
  "timed_set = \<lparr>weight = None, reps = None, duration = Some ''45'', comment = Some ''''\<rparr>"

definition carry_set :: set_record where
  "carry_set = \<lparr>weight = Some ''35'', reps = None, duration = Some ''30'', comment = Some ''''\<rparr>"

definition core_circuit_data :: "string \<rightharpoonup> set_record list" where
  "core_circuit_data =
    [''TRX Knee Tucks'' \<mapsto> [weighted_set, weighted_set, weighted_set],
     ''Barbell Landmine Anti-Rotation'' \<mapsto> [weighted_set, weighted_set, weighted_set],
     ''Medicine Ball Slams'' \<mapsto> [weighted_set, weighted_set, weighted_set],
     ''BOSU Ball Plank'' \<mapsto> [timed_set, timed_set, timed_set],
     ''Kettlebell Suitcase Carry'' \<mapsto> [carry_set, carry_set, carry_set]]"

definition core_circuit_rpes :: "string \<rightharpoonup> nat" where
  "core_circuit_rpes =
    [''TRX Knee Tucks'' \<mapsto> 7,
     ''Barbell Landmine Anti-Rotation'' \<mapsto> 8,
     ''Medicine Ball Slams'' \<mapsto> 7]"

definition core_circuit_skipped :: "string list" where
  "core_circuit_skipped = [''BOSU Ball Plank'', ''Kettlebell Suitcase Carry'']"

text \<open>
  The same ratings with one for the plank and one for the carry added, which no event
  writes.
\<close>

definition rated_timed_rpes :: "string \<rightharpoonup> nat" where
  "rated_timed_rpes =
    core_circuit_rpes(''BOSU Ball Plank'' \<mapsto> 6, ''Kettlebell Suitcase Carry'' \<mapsto> 8)"

text \<open>The table before anything is saved; the payload of a workout is left trivial.\<close>

definition empty_table :: "unit table" where
  "empty_table =
    \<lparr>workout_items = Map.empty, current = None, archive_items = Map.empty, analysis_items = []\<rparr>"

text \<open>A stand-in for \<open>JSON.parse\<close> that accepts the empty object only.\<close>

definition parse_empty_object :: "string \<Rightarrow> unit option" where
  "parse_empty_object s = (if s = ''{}'' then Some () else None)"

text \<open>
  The configuration of a first use, the keys it selects, and a stored cycle with one
  workout done under that selection.
\<close>

definition default_config :: "string \<rightharpoonup> bool" where
  "default_config = defaultIncludeInAnalysis DEFAULT_TEMPLATES"

definition six_keys :: "string list" where
  "six_keys =
    [''A_push_power'', ''A_pull_width'', ''B_push_hyp'', ''B_pull_strength'',
     ''C_leg_day'', ''D_core_circuit'']"

definition one_done :: cycle where
  "one_done = \<lparr>completed = [''A_push_power''], selectedWorkouts = six_keys\<rparr>"

definition five_done :: cycle where
  "five_done =
    \<lparr>completed = [''A_push_power'', ''A_pull_width'', ''B_push_hyp'', ''B_pull_strength'',
                  ''C_leg_day''],
     selectedWorkouts = six_keys\<rparr>"

text \<open>The table after the first of the listed workouts has been saved.\<close>

definition table_one_done :: "unit table" where
  "table_one_done =
    empty_table\<lparr>current := Some
      \<lparr>cycleNumber = 1,
       completedWorkouts = [''A_push_power''],
       remainingWorkouts = [''A_pull_width'', ''B_push_hyp'', ''B_pull_strength'']\<rparr>\<rparr>"

section \<open>Notions used in the statements about the cycle trackers\<close>

text \<open>
  The invariant of the specification's cycle state, on the content of \<open>'current_cycle'\<close>:
  every completed key is a selected key.
\<close>

definition cycle_ok :: "cycle option \<Rightarrow> bool" where
  "cycle_ok stored =
    (case stored of None \<Rightarrow> True | Some c \<Rightarrow> set (completed c) \<subseteq> set (selectedWorkouts c))"

text \<open>
  The completed keys that a run of the effect starts from under the selection \<open>sel\<close>:
  those stored, unless nothing is stored or the stored selection is another one.
\<close>

definition credit :: "string list \<Rightarrow> cycle option \<Rightarrow> string list" where
  "credit sel stored =
    (case stored of
       None \<Rightarrow> []
     | Some c \<Rightarrow> if selectedWorkouts c \<noteq> sel then [] else completed c)"

text \<open>The completed keys of the backend's current cycle; none before the first cycle exists.\<close>

definition backend_credit :: "'p table \<Rightarrow> string list" where
  "backend_credit tbl = (case current tbl of None \<Rightarrow> [] | Some c \<Rightarrow> completedWorkouts c)"



text \<open>
  The exercises without a reps input: the duration and weighted-duration ones.
\<close>

definition timed :: "string \<Rightarrow> bool" where
  "timed n = (getExerciseType n = Duration \<or> getExerciseType n = WeightedDuration)"

text \<open>
  Two properties of a session: no set record of a timed exercise has reps, and every
  RPE entry is a non-zero rating of an exercise that is not timed.
\<close>

definition timed_rows_without_reps :: "session \<Rightarrow> bool" where
  "timed_rows_without_reps s =
    (\<forall>n ss. workoutData s n = Some ss \<and> timed n \<longrightarrow> list_all (\<lambda>r. reps r = None) ss)"

definition rpes_from_scale :: "session \<Rightarrow> bool" where
  "rpes_from_scale s = (\<forall>n v. exerciseRPEs s n = Some v \<longrightarrow> v \<noteq> 0 \<and> \<not> timed n)"
section \<open>Properties of the classifier\<close>

lemma includes_iff_sublist: "str_includes s e \<longleftrightarrow> sublist e s"
  by (induction s) (simp_all add: sublist_Cons_right)

lemma list_ex_includes_matches: "list_ex (str_includes n) entries \<longleftrightarrow> matches entries n"
  by (simp add: list_ex_iff matches_def includes_iff_sublist)

text \<open>
  Claim C9. The classifier returns one of the four tracking types for every name; a name
  with a substring in the weighted-duration list is classified WeightedDuration, hence
  never Bodyweight or Duration; otherwise the duration list decides, then the bodyweight
  list, and a name matching no list is Weighted.
\<close>

theorem getExerciseType_precedence:
  "getExerciseType n \<in> {WeightedDuration, Duration, Bodyweight, Weighted}
   \<and> (matches WEIGHTED_DURATION_EXERCISES n \<longrightarrow>
        getExerciseType n = WeightedDuration
        \<and> getExerciseType n \<noteq> Bodyweight \<and> getExerciseType n \<noteq> Duration)
   \<and> (\<not> matches WEIGHTED_DURATION_EXERCISES n \<and> matches DURATION_BASED_EXERCISES n \<longrightarrow>
        getExerciseType n = Duration)
   \<and> (\<not> matches WEIGHTED_DURATION_EXERCISES n \<and> \<not> matches DURATION_BASED_EXERCISES n
        \<and> matches BODYWEIGHT_EXERCISES n \<longrightarrow>
        getExerciseType n = Bodyweight)
   \<and> (\<not> matches WEIGHTED_DURATION_EXERCISES n \<and> \<not> matches DURATION_BASED_EXERCISES n
        \<and> \<not> matches BODYWEIGHT_EXERCISES n \<longrightarrow>
        getExerciseType n = Weighted)"
proof -
  have "getExerciseType n \<in> {WeightedDuration, Duration, Bodyweight, Weighted}"
    by (cases "getExerciseType n") simp_all
  then show ?thesis
    by (simp add: getExerciseType_def list_ex_includes_matches)
qed

theorem getExerciseType_precedence_witness:
  "matches WEIGHTED_DURATION_EXERCISES ''Plank with Farmer's Walk''
   \<and> matches DURATION_BASED_EXERCISES ''Plank with Farmer's Walk''
   \<and> getExerciseType ''Plank with Farmer's Walk'' = WeightedDuration
   \<and> \<not> matches WEIGHTED_DURATION_EXERCISES ''BOSU Ball Plank''
   \<and> matches DURATION_BASED_EXERCISES ''BOSU Ball Plank''
   \<and> getExerciseType ''BOSU Ball Plank'' = Duration
   \<and> \<not> matches WEIGHTED_DURATION_EXERCISES ''TRX Push-Ups''
   \<and> \<not> matches DURATION_BASED_EXERCISES ''TRX Push-Ups''
   \<and> matches BODYWEIGHT_EXERCISES ''TRX Push-Ups''
   \<and> getExerciseType ''TRX Push-Ups'' = Bodyweight
   \<and> \<not> matches WEIGHTED_DURATION_EXERCISES ''Barbell Bench Press''
   \<and> \<not> matches DURATION_BASED_EXERCISES ''Barbell Bench Press''
   \<and> \<not> matches BODYWEIGHT_EXERCISES ''Barbell Bench Press''
   \<and> getExerciseType ''Barbell Bench Press'' = Weighted"
proof -
  have a: "matches WEIGHTED_DURATION_EXERCISES ''Plank with Farmer's Walk''"
    and a': "matches DURATION_BASED_EXERCISES ''Plank with Farmer's Walk''"
    unfolding list_ex_includes_matches [symmetric] by code_simp+
  have b: "\<not> matches WEIGHTED_DURATION_EXERCISES ''BOSU Ball Plank''"
    and b': "matches DURATION_BASED_EXERCISES ''BOSU Ball Plank''"
    unfolding list_ex_includes_matches [symmetric] by code_simp+
  have c: "\<not> matches WEIGHTED_DURATION_EXERCISES ''TRX Push-Ups''"
    and c': "\<not> matches DURATION_BASED_EXERCISES ''TRX Push-Ups''"
    and c'': "matches BODYWEIGHT_EXERCISES ''TRX Push-Ups''"
    unfolding list_ex_includes_matches [symmetric] by code_simp+
  have d: "\<not> matches WEIGHTED_DURATION_EXERCISES ''Barbell Bench Press''"
    and d': "\<not> matches DURATION_BASED_EXERCISES ''Barbell Bench Press''"
    and d'': "\<not> matches BODYWEIGHT_EXERCISES ''Barbell Bench Press''"
    unfolding list_ex_includes_matches [symmetric] by code_simp+
  have 1: "getExerciseType ''Plank with Farmer's Walk'' = WeightedDuration"
    using getExerciseType_precedence [of "''Plank with Farmer's Walk''"] a
    by (simp only: simp_thms)
  have 2: "getExerciseType ''BOSU Ball Plank'' = Duration"
    using getExerciseType_precedence [of "''BOSU Ball Plank''"] b b'
    by (simp only: simp_thms)
  have 3: "getExerciseType ''TRX Push-Ups'' = Bodyweight"
    using getExerciseType_precedence [of "''TRX Push-Ups''"] c c' c''
    by (simp only: simp_thms)
  have 4: "getExerciseType ''Barbell Bench Press'' = Weighted"
    using getExerciseType_precedence [of "''Barbell Bench Press''"] d d' d''
    by (simp only: simp_thms)
  show ?thesis
    using a a' b b' c c' c'' d d' d'' 1 2 3 4 by (simp only: simp_thms)
qed

section \<open>The completion check of a session\<close>

lemma workoutComplete_by_exercise:
  "workoutComplete t wd rpes skipped =
    list_all (\<lambda>ex.
      (length (filter (\<lambda>s. truthy (weight s) \<and> truthy (reps s))
         (case wd (name ex) of None \<Rightarrow> [] | Some l \<Rightarrow> l)) = sets ex
       \<or> name ex \<in> set skipped)
      \<and> (truthy_num (rpes (name ex)) \<or> name ex \<in> set skipped))
    (exercises t)"
  by (auto simp add: workoutComplete_def Let_def list_all_iff)

lemma exercise_check_agrees:
  assumes "timed (name ex) \<longrightarrow> rpes (name ex) = None" and "rpes (name ex) \<noteq> Some 0"
  shows "((length (filter (\<lambda>s. truthy (weight s) \<and> truthy (reps s)) ss) = sets ex
           \<or> name ex \<in> set skipped)
          \<and> (truthy_num (rpes (name ex)) \<or> name ex \<in> set skipped))
       = ((name ex \<in> set skipped \<or> length (filter (isSetComplete (name ex)) ss) = sets ex)
          \<and> (name ex \<in> set skipped \<or> rpes (name ex) \<noteq> None))"
proof (cases "timed (name ex)")
  case True
  with assms(1) have "rpes (name ex) = None"
    by simp
  then show ?thesis
    by (auto simp add: truthy_num_def)
next
  case False
  then have "isSetComplete (name ex) = (\<lambda>s. truthy (weight s) \<and> truthy (reps s))"
    by (auto simp add: timed_def isSetComplete_def Let_def fun_eq_iff)
  moreover have "truthy_num (rpes (name ex)) \<longleftrightarrow> rpes (name ex) \<noteq> None"
    using assms(2) by (auto simp add: truthy_num_def split: option.splits)
  ultimately show ?thesis
    by auto
qed



text \<open>
  The first hypothesis is needed: with a rating for the plank and the carry, and their
  sets complete under the rules of their types, the predicate of the specification holds
  and the effect, which counts sets with weight and reps only, leaves the workout
  incomplete. No event writes such a rating, as shown next.
\<close>

lemma rated_timed_exercise_differs:
  "isComplete_spec template_D_core_circuit core_circuit_data rated_timed_rpes []
   \<and> \<not> workoutComplete template_D_core_circuit core_circuit_data rated_timed_rpes []"
proof -
  have types: "getExerciseType ''TRX Knee Tucks'' = Weighted"
    "getExerciseType ''Barbell Landmine Anti-Rotation'' = Weighted"
    "getExerciseType ''Medicine Ball Slams'' = Weighted"
    "getExerciseType ''BOSU Ball Plank'' = Duration"
    "getExerciseType ''Kettlebell Suitcase Carry'' = WeightedDuration"
    by code_simp+
  have spec: "isComplete_spec template_D_core_circuit core_circuit_data rated_timed_rpes []"
    by (simp add: isComplete_spec_def template_D_core_circuit_def core_circuit_data_def
        rated_timed_rpes_def core_circuit_rpes_def isSetComplete_def types truthy_def
        weighted_set_def timed_set_def carry_set_def)
  have code: "\<not> workoutComplete template_D_core_circuit core_circuit_data rated_timed_rpes []"
    by (simp add: workoutComplete_def template_D_core_circuit_def core_circuit_data_def
        rated_timed_rpes_def core_circuit_rpes_def truthy_def truthy_num_def weighted_set_def
        timed_set_def carry_set_def)
  from spec code show ?thesis by simp
qed

subsection \<open>The sessions of the component\<close>

text \<open>
  Two properties hold in every session. The set records of a timed exercise have no reps:
  they start without, and the rows of a timed exercise have no reps input. Hence the RPE
  scale is never shown for a timed exercise, and every recorded rating is one of 1 to 10
  for an exercise that is not timed.
\<close>

lemma fold_map_entries:
  assumes "\<And>ex m n v. ex \<in> set exs \<Longrightarrow> f ex m n = Some v \<Longrightarrow> m n = Some v \<or> P n v"
    and "fold f exs m0 n = Some v"
  shows "m0 n = Some v \<or> P n v"
  using assms
proof (induction exs arbitrary: m0)
  case Nil
  then show ?case by simp
next
  case (Cons a exs)
  have rest: "m k = Some w \<or> P k w" if "ex \<in> set exs" "f ex m k = Some w" for ex m k w
    using Cons.prems(1) [of ex m k w] that by simp
  have "fold f exs (f a m0) n = Some v"
    using Cons.prems(2) by simp
  then have "f a m0 n = Some v \<or> P n v"
    using Cons.IH [of "f a m0"] rest by blast
  then show ?case
    using Cons.prems(1) [of a m0 n v] by auto
qed

lemma initialSets_timed:
  "timed (name ex) \<Longrightarrow> list_all (\<lambda>r. reps r = None) (initialSets bw ex)"
  by (auto simp add: timed_def initialSets_def Let_def list_all_iff)

lemma initWorkoutData_rows:
  assumes "timed_rows_without_reps s"
  shows "timed_rows_without_reps (initWorkoutData t s)"
proof -
  let ?f = "\<lambda>ex initData.
      if workoutData s (name ex) = None
      then initData(name ex \<mapsto> initialSets (bodyweight s) ex) else initData"
  let ?P = "\<lambda>n ss. timed n \<longrightarrow> list_all (\<lambda>r. reps r = None) ss"
  have new: "?P n ss" if "fold ?f (exercises t) Map.empty n = Some ss" for n ss
  proof -
    have "Map.empty n = Some ss \<or> ?P n ss"
    proof (rule fold_map_entries [where f = ?f and P = ?P, OF _ that])
      fix ex m n v
      assume "?f ex m n = Some v"
      then show "m n = Some v \<or> ?P n v"
        using initialSets_timed [of ex "bodyweight s"] by (auto split: if_splits)
    qed
    then show ?thesis by simp
  qed
  show ?thesis
    unfolding timed_rows_without_reps_def initWorkoutData_def Let_def
  proof (intro allI impI)
    fix n ss
    assume a: "workoutData (s\<lparr>workoutData := workoutData s ++ fold ?f (exercises t) Map.empty\<rparr>) n
        = Some ss \<and> timed n"
    then have "fold ?f (exercises t) Map.empty n = Some ss \<or> workoutData s n = Some ss"
      by (auto simp add: map_add_Some_iff)
    then show "list_all (\<lambda>r. reps r = None) ss"
      using new [of n ss] a assms by (auto simp add: timed_rows_without_reps_def)
  qed
qed

lemma bodyweightEffect_rows:
  assumes "timed_rows_without_reps s"
  shows "timed_rows_without_reps (bodyweightEffect t s)"
proof (cases "bodyweight s \<noteq> []")
  case False
  then show ?thesis
    using assms by (simp add: bodyweightEffect_def)
next
  case True
  let ?f = "\<lambda>ex updatedData.
      if getExerciseType (name ex) = Bodyweight then
        (case workoutData s (name ex) of
           None \<Rightarrow> updatedData
         | Some ss \<Rightarrow>
             updatedData(name ex \<mapsto>
               map (\<lambda>r. r\<lparr>weight :=
                       (if truthy (weight r) then weight r
                        else Some (bodyweight s))\<rparr>) ss))
      else updatedData"
  let ?P = "\<lambda>n (ss :: set_record list). \<not> timed n"
  have new: "\<not> timed n" if "fold ?f (exercises t) Map.empty n = Some ss" for n ss
  proof -
    have "Map.empty n = Some ss \<or> ?P n ss"
    proof (rule fold_map_entries [where f = ?f and P = ?P, OF _ that])
      fix ex m n v
      assume "?f ex m n = Some v"
      then show "m n = Some v \<or> ?P n v"
        by (auto simp add: timed_def split: if_splits option.splits)
    qed
    then show ?thesis by simp
  qed
  show ?thesis
    unfolding timed_rows_without_reps_def
  proof (intro allI impI)
    fix n ss
    assume a: "workoutData (bodyweightEffect t s) n = Some ss \<and> timed n"
    then have "(workoutData s ++ fold ?f (exercises t) Map.empty) n = Some ss"
      using True by (simp add: bodyweightEffect_def Let_def)
    then have "fold ?f (exercises t) Map.empty n = Some ss \<or> workoutData s n = Some ss"
      by (auto simp add: map_add_Some_iff)
    then show "list_all (\<lambda>r. reps r = None) ss"
      using new [of n ss] a assms by (auto simp add: timed_rows_without_reps_def)
  qed
qed

lemma updateSet_rows:
  assumes "timed_rows_without_reps s"
    and "workoutData s n = Some ss" and "i < length ss"
    and "f \<in> set (rowInputs (getExerciseType n))"
  shows "timed_rows_without_reps (updateSet n i (writeInput f v (ss ! i)) s)"
  unfolding timed_rows_without_reps_def
proof (intro allI impI)
  fix k rows
  assume a: "workoutData (updateSet n i (writeInput f v (ss ! i)) s) k = Some rows \<and> timed k"
  show "list_all (\<lambda>r. reps r = None) rows"
  proof (cases "k = n")
    case False
    then have "workoutData s k = Some rows"
      using a by (simp add: updateSet_def)
    then show ?thesis
      using a assms(1) by (auto simp add: timed_rows_without_reps_def)
  next
    case True
    then have rows: "rows = ss[i := writeInput f v (ss ! i)]"
      using a assms(2) by (simp add: updateSet_def)
    have old: "list_all (\<lambda>r. reps r = None) ss"
      using a True assms(1,2) by (auto simp add: timed_rows_without_reps_def)
    then have "reps (ss ! i) = None"
      using assms(3) by (simp add: list_all_length)
    moreover have "f \<noteq> RepsInput"
      using a True assms(4) by (auto simp add: timed_def rowInputs_def)
    ultimately have "reps (writeInput f v (ss ! i)) = None"
      by (cases f) (simp_all add: writeInput_def)
    then show ?thesis
      using old unfolding rows list_all_iff by (auto dest: set_update_subset_insert [THEN subsetD])
  qed
qed

lemma apply_event_rows:
  assumes "apply_event templates e s = Some s'" and "timed_rows_without_reps s"
  shows "timed_rows_without_reps s'"
proof (cases e)
  case (SelectTemplate i)
  have "timed_rows_without_reps (s\<lparr>activeTemplate := i\<rparr>)"
    using assms(2) by (simp add: timed_rows_without_reps_def)
  then show ?thesis
    using assms(1) SelectTemplate initWorkoutData_rows
    by (auto simp add: apply_event_def split: if_splits)
next
  case (ChangeBodyweight b)
  have "timed_rows_without_reps (s\<lparr>bodyweight := b\<rparr>)"
    using assms(2) by (simp add: timed_rows_without_reps_def)
  then show ?thesis
    using assms ChangeBodyweight bodyweightEffect_rows
    by (auto simp add: apply_event_def split: if_splits)
next
  case (ChangeInput j i f v)
  then show ?thesis
    using assms updateSet_rows
    by (auto simp add: apply_event_def Let_def split: if_splits option.splits)
next
  case (SelectRPE j v)
  then show ?thesis
    using assms
    by (auto simp add: apply_event_def Let_def onSetExerciseRPE_def timed_rows_without_reps_def
        split: if_splits)
next
  case (SkipExercise j)
  then show ?thesis
    using assms
    by (auto simp add: apply_event_def Let_def skipExercise_def timed_rows_without_reps_def
        split: if_splits)
next
  case ClearSkipped
  then show ?thesis
    using assms by (auto simp add: apply_event_def timed_rows_without_reps_def)
qed

lemma scale_hidden_without_reps:
  assumes "list_all (\<lambda>r. reps r = None) ss" and "0 < sets ex"
  shows "\<not> showRPEScale ex ss rpe"
proof -
  have "filter (\<lambda>s. truthy (weight s) \<and> truthy (reps s)) ss = []"
    using assms(1) by (auto simp add: list_all_iff filter_empty_conv truthy_def)
  then show ?thesis
    using assms(2) by (simp add: showRPEScale_def)
qed

lemma apply_event_rpes:
  assumes "apply_event templates e s = Some s'"
    and "list_all (\<lambda>t. list_all (\<lambda>ex. 0 < sets ex) (exercises t)) templates"
    and "activeTemplate s < length templates"
    and "timed_rows_without_reps s" and "rpes_from_scale s"
  shows "rpes_from_scale s'"
proof (cases e)
  case (SelectTemplate i)
  then show ?thesis
    using assms(1,5)
    by (auto simp add: apply_event_def initWorkoutData_def Let_def rpes_from_scale_def
        split: if_splits)
next
  case (ChangeBodyweight b)
  then show ?thesis
    using assms(1,5)
    by (auto simp add: apply_event_def bodyweightEffect_def Let_def rpes_from_scale_def
        split: if_splits)
next
  case (ChangeInput j i f v)
  then show ?thesis
    using assms(1,5)
    by (auto simp add: apply_event_def updateSet_def Let_def rpes_from_scale_def
        split: if_splits option.splits)
next
  case (SelectRPE j v)
  let ?t = "templates ! activeTemplate s"
  let ?ex = "exercises ?t ! j"
  let ?ss = "case workoutData s (name ?ex) of
      None \<Rightarrow> initialSets (bodyweight s) ?ex | Some l \<Rightarrow> l"
  from assms(1) SelectRPE have j: "j < length (exercises ?t)"
    and shown: "showRPEScale ?ex ?ss (exerciseRPEs s (name ?ex))"
    and v: "1 \<le> v" and s': "s' = onSetExerciseRPE (name ?ex) v s"
    by (auto simp add: apply_event_def Let_def split: if_splits)
  have "?t \<in> set templates"
    using assms(3) by simp
  with j assms(2) have pos: "0 < sets ?ex"
    by (auto simp add: list_all_iff)
  have "\<not> timed (name ?ex)"
  proof
    assume t: "timed (name ?ex)"
    have "list_all (\<lambda>r. reps r = None) ?ss"
    proof (cases "workoutData s (name ?ex)")
      case None
      then show ?thesis
        using initialSets_timed [OF t] by simp
    next
      case (Some l)
      then show ?thesis
        using assms(4) t by (auto simp add: timed_rows_without_reps_def)
    qed
    with pos shown show False
      using scale_hidden_without_reps by blast
  qed
  with v assms(5) show ?thesis
    unfolding s' by (auto simp add: onSetExerciseRPE_def rpes_from_scale_def)
next
  case (SkipExercise j)
  then show ?thesis
    using assms(1,5)
    by (auto simp add: apply_event_def skipExercise_def Let_def rpes_from_scale_def
        split: if_splits)
next
  case ClearSkipped
  then show ?thesis
    using assms(1,5) by (auto simp add: apply_event_def rpes_from_scale_def)
qed

lemma apply_event_activeTemplate:
  assumes "apply_event templates e s = Some s'" and "activeTemplate s < length templates"
  shows "activeTemplate s' < length templates"
  using assms
  by (cases e)
    (auto simp add: apply_event_def initWorkoutData_def bodyweightEffect_def updateSet_def
      onSetExerciseRPE_def skipExercise_def Let_def split: if_splits option.splits)

lemma apply_events_invariants:
  assumes "apply_events templates es s = Some s'"
    and "list_all (\<lambda>t. list_all (\<lambda>ex. 0 < sets ex) (exercises t)) templates"
    and "activeTemplate s < length templates"
    and "timed_rows_without_reps s" and "rpes_from_scale s"
  shows "timed_rows_without_reps s' \<and> rpes_from_scale s'"
  using assms
proof (induction es arbitrary: s)
  case Nil
  then show ?case by simp
next
  case (Cons e es)
  from Cons.prems(1) obtain s1 where e: "apply_event templates e s = Some s1"
    and es: "apply_events templates es s1 = Some s'"
    by (auto split: option.splits)
  show ?case
    using Cons.IH [OF es Cons.prems(2) apply_event_activeTemplate [OF e Cons.prems(3)]
        apply_event_rows [OF e Cons.prems(4)]
        apply_event_rpes [OF e Cons.prems(2,3,4,5)]] .
qed

lemma initialSession_invariants:
  "timed_rows_without_reps (initialSession templates)"
  "rpes_from_scale (initialSession templates)"
  "activeTemplate (initialSession templates) = 0"
proof -
  let ?s0 = "\<lparr>activeTemplate = 0, workoutData = Map.empty, exerciseRPEs = Map.empty,
       skippedExercises = [], bodyweight = ''''\<rparr>"
  have "timed_rows_without_reps ?s0"
    by (simp add: timed_rows_without_reps_def)
  then show "timed_rows_without_reps (initialSession templates)"
    unfolding initialSession_def by (rule initWorkoutData_rows)
  show "rpes_from_scale (initialSession templates)"
    by (simp add: initialSession_def initWorkoutData_def Let_def rpes_from_scale_def)
  show "activeTemplate (initialSession templates) = 0"
    by (simp add: initialSession_def initWorkoutData_def Let_def)
qed

text \<open>
  Every exercise of the catalog has at least one set, so a row without reps is never
  complete and never shows the RPE scale.
\<close>

lemma catalog_sets_positive:
  "list_all (\<lambda>t. list_all (\<lambda>ex. 0 < sets ex) (exercises t)) DEFAULT_TEMPLATES"
  by (simp add: DEFAULT_TEMPLATES_def template_A_push_power_def template_A_pull_width_def
      template_B_push_hyp_def template_B_pull_strength_def template_C_leg_day_def
      template_D_core_circuit_def template_optional_core_activation_def)

text \<open>
  In every session that the events lead to from the mounted component, the effect is
  the completion predicate of the specification, for the template on screen and for any
  other.
\<close>

lemma reachable_session_agrees:
  assumes "apply_events DEFAULT_TEMPLATES es (initialSession DEFAULT_TEMPLATES) = Some s"
  shows "workoutComplete t (workoutData s) (exerciseRPEs s) (skippedExercises s) =
    isComplete_spec t (workoutData s) (exerciseRPEs s) (skippedExercises s)"
proof -
  have "activeTemplate (initialSession DEFAULT_TEMPLATES) < length DEFAULT_TEMPLATES"
    by (simp add: initialSession_invariants DEFAULT_TEMPLATES_def)
  from apply_events_invariants [OF assms catalog_sets_positive this
      initialSession_invariants(1,2)]
  have "rpes_from_scale s"
    by simp
  then have "timed (name ex) \<longrightarrow> exerciseRPEs s (name ex) = None"
    and "exerciseRPEs s (name ex) \<noteq> Some 0" for ex
    unfolding rpes_from_scale_def by (cases "exerciseRPEs s (name ex)"; fastforce)+
  then show ?thesis
    unfolding workoutComplete_by_exercise isComplete_spec_def list_all_iff
    using exercise_check_agrees [of _ "exerciseRPEs s"] by blast
qed

text \<open>
  The events of the session of Workout D above are all offered, and lead to the state
  used above, in which the workout is complete.
\<close>

lemma core_circuit_session:
  "(case apply_events DEFAULT_TEMPLATES core_circuit_events (initialSession DEFAULT_TEMPLATES) of
      None \<Rightarrow> False
    | Some s \<Rightarrow>
        list_all (\<lambda>ex. workoutData s (name ex) = core_circuit_data (name ex)
                    \<and> exerciseRPEs s (name ex) = core_circuit_rpes (name ex))
          (exercises template_D_core_circuit)
        \<and> skippedExercises s = core_circuit_skipped
        \<and> workoutComplete template_D_core_circuit (workoutData s) (exerciseRPEs s)
            (skippedExercises s))"
  by code_simp

text \<open>
  The exercises on screen always have their rows in \<open>workoutData\<close>, so an input of a row
  that is on screen is never refused for want of data.
\<close>

lemma fold_keeps_entries:
  assumes "\<And>ex m. m n \<noteq> None \<Longrightarrow> f ex m n \<noteq> None"
  shows "m0 n \<noteq> None \<Longrightarrow> fold f exs m0 n \<noteq> None"
proof (induction exs arbitrary: m0)
  case Nil
  then show ?case by simp
next
  case (Cons a exs)
  have "f a m0 n \<noteq> None"
    using assms Cons.prems by blast
  then have "fold f exs (f a m0) n \<noteq> None"
    using Cons.IH [of "f a m0"] by blast
  then show ?case
    by simp
qed

lemma initWorkoutData_rows_present:
  assumes "ex \<in> set (exercises t)"
  shows "workoutData (initWorkoutData t s) (name ex) \<noteq> None"
proof (cases "workoutData s (name ex)")
  case (Some l)
  then show ?thesis
    by (auto simp add: initWorkoutData_def Let_def map_add_def split: option.splits)
next
  case None
  let ?f = "\<lambda>ex initData.
      if workoutData s (name ex) = None
      then initData(name ex \<mapsto> initialSets (bodyweight s) ex) else initData"
  have keep: "?f e m (name ex) \<noteq> None" if "m (name ex) \<noteq> None" for e m
    using that by simp
  have "fold ?f exs m0 (name ex) \<noteq> None" if "ex \<in> set exs" for exs m0
    using that
  proof (induction exs arbitrary: m0)
    case Nil
    then show ?case by simp
  next
    case (Cons a exs)
    show ?case
    proof (cases "name a = name ex")
      case True
      then have "?f a m0 (name ex) \<noteq> None"
        using None by simp
      then have "fold ?f exs (?f a m0) (name ex) \<noteq> None"
        using fold_keeps_entries [of "name ex" ?f "?f a m0" exs] keep by blast
      then show ?thesis
        by simp
    next
      case False
      then have "ex \<in> set exs"
        using Cons.prems by auto
      then have "fold ?f exs (?f a m0) (name ex) \<noteq> None"
        using Cons.IH [of "?f a m0"] by blast
      then show ?thesis
        by simp
    qed
  qed
  from this [of "exercises t" Map.empty] assms obtain y
    where "fold ?f (exercises t) Map.empty (name ex) = Some y"
    by blast
  then have "(workoutData s ++ fold ?f (exercises t) Map.empty) (name ex) = Some y"
    by (rule map_add_find_right)
  then show ?thesis
    by (simp add: initWorkoutData_def Let_def)
qed

lemma apply_event_keeps_data:
  assumes "apply_event templates e s = Some s'" and "workoutData s n \<noteq> None"
  shows "workoutData s' n \<noteq> None"
  using assms
  by (cases e)
    (auto simp add: apply_event_def initWorkoutData_def bodyweightEffect_def updateSet_def
      onSetExerciseRPE_def skipExercise_def Let_def map_add_def
      split: if_splits option.splits)

lemma apply_event_rows_present:
  assumes "apply_event templates e s = Some s'"
    and "\<forall>ex \<in> set (exercises (templates ! activeTemplate s)). workoutData s (name ex) \<noteq> None"
  shows "\<forall>ex \<in> set (exercises (templates ! activeTemplate s')). workoutData s' (name ex) \<noteq> None"
proof (cases e)
  case (SelectTemplate i)
  with assms(1) have s': "s' = initWorkoutData (templates ! i) (s\<lparr>activeTemplate := i\<rparr>)"
    by (auto simp add: apply_event_def split: if_splits)
  then have "activeTemplate s' = i"
    by (simp add: initWorkoutData_def Let_def)
  then show ?thesis
    unfolding s' using initWorkoutData_rows_present by simp
next
  case (ChangeBodyweight b)
  with assms(1) have "activeTemplate s' = activeTemplate s"
    by (auto simp add: apply_event_def bodyweightEffect_def Let_def split: if_splits)
  then show ?thesis
    using assms(2) apply_event_keeps_data [OF assms(1)] by simp
next
  case (ChangeInput j i f v)
  with assms(1) have "activeTemplate s' = activeTemplate s"
    by (auto simp add: apply_event_def updateSet_def Let_def split: if_splits option.splits)
  then show ?thesis
    using assms(2) apply_event_keeps_data [OF assms(1)] by simp
next
  case (SelectRPE j v)
  with assms(1) have "activeTemplate s' = activeTemplate s"
    by (auto simp add: apply_event_def onSetExerciseRPE_def Let_def split: if_splits)
  then show ?thesis
    using assms(2) apply_event_keeps_data [OF assms(1)] by simp
next
  case (SkipExercise j)
  with assms(1) have "activeTemplate s' = activeTemplate s"
    by (auto simp add: apply_event_def skipExercise_def Let_def split: if_splits)
  then show ?thesis
    using assms(2) apply_event_keeps_data [OF assms(1)] by simp
next
  case ClearSkipped
  with assms(1) have "activeTemplate s' = activeTemplate s"
    by (auto simp add: apply_event_def)
  then show ?thesis
    using assms(2) apply_event_keeps_data [OF assms(1)] by simp
qed

lemma rows_on_screen:
  assumes "apply_events templates es (initialSession templates) = Some s"
    and "ex \<in> set (exercises (templates ! activeTemplate s))"
  shows "workoutData s (name ex) \<noteq> None"
proof -
  have "\<forall>ex \<in> set (exercises (templates ! activeTemplate s')). workoutData s' (name ex) \<noteq> None"
    if "apply_events templates es s0 = Some s'"
      and "\<forall>ex \<in> set (exercises (templates ! activeTemplate s0)). workoutData s0 (name ex) \<noteq> None"
    for s0 s'
    using that
  proof (induction es arbitrary: s0)
    case Nil
    then show ?case by simp
  next
    case (Cons e es)
    from Cons.prems(1) obtain s1 where e: "apply_event templates e s0 = Some s1"
      and es: "apply_events templates es s1 = Some s'"
      by (auto split: option.splits)
    show ?case
      using Cons.IH [OF es apply_event_rows_present [OF e Cons.prems(2)]] .
  qed
  moreover have "\<forall>ex \<in> set (exercises (templates ! activeTemplate (initialSession templates))).
      workoutData (initialSession templates) (name ex) \<noteq> None"
    unfolding initialSession_invariants(3)
    unfolding initialSession_def using initWorkoutData_rows_present by simp
  ultimately show ?thesis
    using assms by blast
qed

section \<open>The backend's list of mandatory workouts\<close>

text \<open>
  Claim C3. With nothing configured the client selects the six mandatory keys of the
  catalog. The backend closes the cycle on the fourth of its four listed keys: the archive
  of cycle 1 holds neither \<open>C_leg_day\<close> nor \<open>D_core_circuit\<close>, and cycle 2 has begun.
\<close>

theorem backend_closes_without_C_and_D:
  "selectedKeys DEFAULT_TEMPLATES (defaultIncludeInAnalysis DEFAULT_TEMPLATES) =
     [''A_push_power'', ''A_pull_width'', ''B_push_hyp'', ''B_pull_strength'',
      ''C_leg_day'', ''D_core_circuit'']
   \<and> map (\<lambda>r. cycleComplete (fst r))
        (updateCycleProgresses
          [''A_push_power'', ''A_pull_width'', ''B_push_hyp'', ''B_pull_strength'']
          empty_table) = [False, False, False, True]
   \<and> map_option archive_workouts
        (archive_items (snd (last (updateCycleProgresses
          [''A_push_power'', ''A_pull_width'', ''B_push_hyp'', ''B_pull_strength'']
          empty_table))) 1) =
       Some [''A_push_power'', ''A_pull_width'', ''B_push_hyp'', ''B_pull_strength'']
   \<and> map_option cycleNumber
        (current (snd (last (updateCycleProgresses
          [''A_push_power'', ''A_pull_width'', ''B_push_hyp'', ''B_pull_strength'']
          empty_table)))) = Some 2"
proof -
  have client: "selectedKeys DEFAULT_TEMPLATES (defaultIncludeInAnalysis DEFAULT_TEMPLATES) =
     [''A_push_power'', ''A_pull_width'', ''B_push_hyp'', ''B_pull_strength'',
      ''C_leg_day'', ''D_core_circuit'']"
    by (simp add: selectedKeys_def defaultIncludeInAnalysis_def DEFAULT_TEMPLATES_def
        isIncluded_def template_A_push_power_def template_A_pull_width_def
        template_B_push_hyp_def template_B_pull_strength_def template_C_leg_day_def
        template_D_core_circuit_def template_optional_core_activation_def)
  have run: "updateCycleProgresses
          [''A_push_power'', ''A_pull_width'', ''B_push_hyp'', ''B_pull_strength'']
          empty_table =
    [(\<lparr>cycleComplete = False, newCycleNumber = None\<rparr>,
      empty_table\<lparr>current := Some \<lparr>cycleNumber = 1, completedWorkouts = [''A_push_power''],
        remainingWorkouts = [''A_pull_width'', ''B_push_hyp'', ''B_pull_strength'']\<rparr>\<rparr>),
     (\<lparr>cycleComplete = False, newCycleNumber = None\<rparr>,
      empty_table\<lparr>current := Some \<lparr>cycleNumber = 1,
        completedWorkouts = [''A_push_power'', ''A_pull_width''],
        remainingWorkouts = [''B_push_hyp'', ''B_pull_strength'']\<rparr>\<rparr>),
     (\<lparr>cycleComplete = False, newCycleNumber = None\<rparr>,
      empty_table\<lparr>current := Some \<lparr>cycleNumber = 1,
        completedWorkouts = [''A_push_power'', ''A_pull_width'', ''B_push_hyp''],
        remainingWorkouts = [''B_pull_strength'']\<rparr>\<rparr>),
     (\<lparr>cycleComplete = True, newCycleNumber = Some 2\<rparr>,
      empty_table\<lparr>current := Some (ItemSchemas_currentCycle 2),
        archive_items := [1 \<mapsto> \<lparr>archive_cycleNumber = 1,
          archive_workouts =
            [''A_push_power'', ''A_pull_width'', ''B_push_hyp'', ''B_pull_strength'']\<rparr>]\<rparr>)]"
    by (simp add: updateCycleProgress_def getCurrentCycle_def completeCycle_def
        ItemSchemas_currentCycle_def mandatoryWorkouts_def empty_table_def Let_def)
  show ?thesis
    unfolding run using client by (simp add: ItemSchemas_currentCycle_def empty_table_def)
qed

section \<open>Optional workouts and the current cycle\<close>

text \<open>
  Claim C10. A request whose \<open>isOptional\<close> is true stores the workout item and nothing
  else: the current-cycle item, the archives and the saved analyses are those of the table
  before, whatever the template key, and the response reports neither a completed cycle
  nor an analysis.
\<close>

theorem optional_save_leaves_cycle:
  "postWorkouts k d p (Some True) tbl =
     (\<lparr>success = True,
       workout = \<lparr>date = d, templateKey = k, payload = p, isOptional = True,
                  item_completed = True\<rparr>,
       res_cycleComplete = False, analysis = False\<rparr>,
      tbl\<lparr>workout_items := (workout_items tbl)(workoutKey d k \<mapsto>
        \<lparr>date = d, templateKey = k, payload = p, isOptional = True,
         item_completed = True\<rparr>)\<rparr>)
   \<and> current (snd (postWorkouts k d p (Some True) tbl)) = current tbl
   \<and> archive_items (snd (postWorkouts k d p (Some True) tbl)) = archive_items tbl
   \<and> analysis_items (snd (postWorkouts k d p (Some True) tbl)) = analysis_items tbl"
  by (simp add: postWorkouts_def saveWorkout_def Let_def)

section \<open>The response parser's degraded result\<close>

lemma jsonMatch_no_open: "CHR ''{'' \<notin> set s \<Longrightarrow> jsonMatch s = None"
proof -
  assume "CHR ''{'' \<notin> set s"
  then have e: "dropWhile (\<lambda>c. c \<noteq> CHR ''{'') s = []"
    by auto
  show ?thesis unfolding jsonMatch_def Let_def e by simp
qed

lemma jsonMatch_braces:
  assumes pre: "CHR ''{'' \<notin> set pre" and post: "CHR ''}'' \<notin> set post"
  shows "jsonMatch (pre @ CHR ''{'' # mid @ CHR ''}'' # post) = Some (CHR ''{'' # mid @ [CHR ''}''])"
proof -
  have 1: "dropWhile (\<lambda>c. c \<noteq> CHR ''{'') (pre @ CHR ''{'' # mid @ CHR ''}'' # post)
            = CHR ''{'' # mid @ CHR ''}'' # post"
    using pre by (subst dropWhile_append2) auto
  have 2: "dropWhile (\<lambda>c. c \<noteq> CHR ''}'') (rev (CHR ''{'' # mid @ CHR ''}'' # post))
            = CHR ''}'' # rev mid @ [CHR ''{'']"
  proof -
    have "rev (CHR ''{'' # mid @ CHR ''}'' # post) = rev post @ CHR ''}'' # (rev mid @ [CHR ''{''])"
      by simp
    moreover have "dropWhile (\<lambda>c. c \<noteq> CHR ''}'') (rev post @ CHR ''}'' # (rev mid @ [CHR ''{'']))
                   = dropWhile (\<lambda>c. c \<noteq> CHR ''}'') (CHR ''}'' # (rev mid @ [CHR ''{'']))"
      using post by (subst dropWhile_append2) auto
    ultimately show ?thesis by simp
  qed
  show ?thesis
    unfolding jsonMatch_def Let_def 1 2 by simp
qed

text \<open>
  Claim C8. The parser is a total function with two outcomes. When \<open>JSON.parse\<close> rejects
  the text handed to it (the brace-delimited part of the response, or the whole response
  when there is none), the result is the default structure: fatigue level moderate,
  progress rate optimal, a summary saying that parsing failed, and the response text kept
  as it came. Otherwise the result is the parsed value.
\<close>

theorem parseClaudeResponse_degrades:
  "(JSON_parse (parsedText responseText) = None \<longrightarrow>
      parseClaudeResponse JSON_parse responseText =
        DefaultStructure
          \<lparr>overall_assessment =
             \<lparr>fatigue_level = ''moderate'', progress_rate = ''optimal'',
              summary = ''Analysis completed but response parsing failed''\<rparr>,
           raw_response = responseText,
           error = ''Failed to parse structured response''\<rparr>)
   \<and> (\<forall>j. JSON_parse (parsedText responseText) = Some j \<longrightarrow>
        parseClaudeResponse JSON_parse responseText = Json j)"
  by (simp add: parseClaudeResponse_def parsedText_def split: option.splits)

theorem parseClaudeResponse_degrades_witness:
  "parse_empty_object (parsedText ''I could not analyse this cycle.'') = None
   \<and> parseClaudeResponse parse_empty_object ''I could not analyse this cycle.'' =
        DefaultStructure
          \<lparr>overall_assessment =
             \<lparr>fatigue_level = ''moderate'', progress_rate = ''optimal'',
              summary = ''Analysis completed but response parsing failed''\<rparr>,
           raw_response = ''I could not analyse this cycle.'',
           error = ''Failed to parse structured response''\<rparr>
   \<and> parse_empty_object (parsedText ''Result: {} as requested'') = Some ()
   \<and> parseClaudeResponse parse_empty_object ''Result: {} as requested'' = Json ()"
proof -
  have a: "parse_empty_object (parsedText ''I could not analyse this cycle.'') = None"
    by (simp add: parsedText_def jsonMatch_def parse_empty_object_def)
  have b: "parse_empty_object (parsedText ''Result: {} as requested'') = Some ()"
    by (simp add: parsedText_def jsonMatch_def parse_empty_object_def)
  show ?thesis
    using a b
      parseClaudeResponse_degrades [of parse_empty_object "''I could not analyse this cycle.''"]
      parseClaudeResponse_degrades [of parse_empty_object "''Result: {} as requested''"]
    by (simp only: simp_thms)
qed

section \<open>The client-side cycle effect, step by step\<close>

lemma selectedKeys_member:
  "t \<in> set templates \<Longrightarrow> isIncluded cfg t \<Longrightarrow> key t \<in> set (selectedKeys templates cfg)"
  by (simp add: selectedKeys_def)

lemma cycleEffect_not_complete: "cycleEffect templates cfg False t stored = (stored, None)"
  by (simp add: cycleEffect_def)

lemma cycleEffect_not_included:
  "\<not> isIncluded cfg t \<Longrightarrow> cycleEffect templates cfg b t stored = (stored, None)"
  by (simp add: cycleEffect_def)

lemma cycleEffect_step:
  assumes "isIncluded cfg t"
  shows "cycleEffect templates cfg True t stored =
    (let sel = selectedKeys templates cfg; c0 = credit sel stored
     in if key t \<in> set c0 then (stored, None)
        else if set sel \<subseteq> set c0 \<union> {key t} \<and> sel \<noteq> []
        then (Some \<lparr>completed = [], selectedWorkouts = sel\<rparr>,
              Some (CycleComplete (c0 @ [key t]) sel))
        else (Some \<lparr>completed = c0 @ [key t], selectedWorkouts = sel\<rparr>, None))"
proof (cases stored)
  case None
  then show ?thesis
    using assms
    by (auto simp add: cycleEffect_def credit_def resetIfSelectionChanged_def Let_def
        list_all_iff)
next
  case (Some c)
  then show ?thesis
    using assms
    by (cases c)
      (auto simp add: cycleEffect_def credit_def resetIfSelectionChanged_def Let_def
        list_all_iff)
qed


section \<open>Changing the selection\<close>

lemma filter_member_by_key:
  assumes "distinct (map key ts)" and "t \<in> set ts"
  shows "key t \<in> set (map key (filter P ts)) \<longleftrightarrow> P t"
proof -
  have inj: "inj_on key (set ts)"
    using assms(1) by (simp add: distinct_map)
  show ?thesis
  proof
    assume "key t \<in> set (map key (filter P ts))"
    then obtain u where u: "u \<in> set ts" "P u" "key u = key t"
      by auto
    with inj assms(2) have "u = t"
      by (auto dest: inj_onD)
    with u show "P t" by simp
  next
    assume "P t"
    with assms(2) show "key t \<in> set (map key (filter P ts))"
      by auto
  qed
qed

lemma selectedKeys_same_set:
  assumes "distinct (map key ts)"
    and "set (selectedKeys ts a) = set (selectedKeys ts b)"
  shows "selectedKeys ts a = selectedKeys ts b"
proof -
  have "isIncluded a t \<longleftrightarrow> isIncluded b t" if "t \<in> set ts" for t
    using filter_member_by_key [OF assms(1) that, of "isIncluded a"]
      filter_member_by_key [OF assms(1) that, of "isIncluded b"] assms(2)
    by (simp add: selectedKeys_def)
  then have "filter (isIncluded a) ts = filter (isIncluded b) ts"
    by (auto intro: filter_cong)
  then show ?thesis
    by (simp add: selectedKeys_def)
qed

text \<open>
  Claim C4, as amended. The stored selection and the new one are both drawn from the
  catalog, whose keys are distinct, so they are equal as lists exactly when they are equal
  as sets. The reset is a step of the effect, taken when the workout on screen is complete
  and its template selected: if the new selection differs from the stored one the cycle
  becomes the new selection with no completed key, whatever was completed before, and the
  effect goes on from that cycle; if it is the same the cycle is left as it is. A run of
  the effect with the workout incomplete, or its template not selected, leaves the stored
  cycle untouched whatever the selection. The last two parts give what such a run of the
  effect stores. Under a changed selection nothing of the completed keys stored before is
  left: the run stores the completed workout's key alone, or closes at once when that key
  is the whole new selection. Under an unchanged selection every completed key stored
  before is kept: a key already completed leaves the stored cycle as it is, and otherwise
  the key is appended to the stored ones, or the cycle closes with all of them.
\<close>

theorem selection_change_resets:
  assumes "distinct (map key templates)"
    and "selectedWorkouts c = selectedKeys templates old"
  shows "(set (selectedKeys templates new) \<noteq> set (selectedWorkouts c) \<longrightarrow>
            resetIfSelectionChanged (selectedKeys templates new) c =
              \<lparr>completed = [], selectedWorkouts = selectedKeys templates new\<rparr>)
       \<and> (set (selectedKeys templates new) = set (selectedWorkouts c) \<longrightarrow>
            resetIfSelectionChanged (selectedKeys templates new) c = c)
       \<and> (isIncluded new t \<longrightarrow>
            cycleEffect templates new True t (Some c) =
              cycleEffect templates new True t
                (Some (resetIfSelectionChanged (selectedKeys templates new) c)))
       \<and> (\<not> (b \<and> isIncluded new t) \<longrightarrow>
            cycleEffect templates new b t stored = (stored, None))
       \<and> (isIncluded new t
            \<and> set (selectedKeys templates new) \<noteq> set (selectedWorkouts c) \<longrightarrow>
            cycleEffect templates new True t (Some c) =
              (if set (selectedKeys templates new) \<subseteq> {key t} \<and> selectedKeys templates new \<noteq> []
               then (Some \<lparr>completed = [], selectedWorkouts = selectedKeys templates new\<rparr>,
                     Some (CycleComplete [key t] (selectedKeys templates new)))
               else (Some \<lparr>completed = [key t],
                           selectedWorkouts = selectedKeys templates new\<rparr>, None)))
       \<and> (isIncluded new t
            \<and> set (selectedKeys templates new) = set (selectedWorkouts c) \<longrightarrow>
            cycleEffect templates new True t (Some c) =
              (if key t \<in> set (completed c) then (Some c, None)
               else if set (selectedWorkouts c) \<subseteq> set (completed c) \<union> {key t}
                       \<and> selectedWorkouts c \<noteq> []
               then (Some \<lparr>completed = [], selectedWorkouts = selectedWorkouts c\<rparr>,
                     Some (CycleComplete (completed c @ [key t]) (selectedWorkouts c)))
               else (Some \<lparr>completed = completed c @ [key t],
                           selectedWorkouts = selectedWorkouts c\<rparr>, None)))"
proof (intro conjI impI)
  assume "set (selectedKeys templates new) \<noteq> set (selectedWorkouts c)"
  then have "selectedWorkouts c \<noteq> selectedKeys templates new"
    by auto
  then show "resetIfSelectionChanged (selectedKeys templates new) c =
      \<lparr>completed = [], selectedWorkouts = selectedKeys templates new\<rparr>"
    by (simp add: resetIfSelectionChanged_def)
next
  assume "set (selectedKeys templates new) = set (selectedWorkouts c)"
  then have "selectedKeys templates new = selectedWorkouts c"
    using selectedKeys_same_set [OF assms(1), of new old] assms(2) by simp
  then show "resetIfSelectionChanged (selectedKeys templates new) c = c"
    by (simp add: resetIfSelectionChanged_def)
next
  assume "isIncluded new t"
  then show "cycleEffect templates new True t (Some c) =
      cycleEffect templates new True t
        (Some (resetIfSelectionChanged (selectedKeys templates new) c))"
    by (simp add: cycleEffect_def resetIfSelectionChanged_def Let_def)
next
  assume "\<not> (b \<and> isIncluded new t)"
  then show "cycleEffect templates new b t stored = (stored, None)"
    by (auto simp add: cycleEffect_def)
next
  assume a: "isIncluded new t
    \<and> set (selectedKeys templates new) \<noteq> set (selectedWorkouts c)"
  then have "selectedWorkouts c \<noteq> selectedKeys templates new"
    by auto
  then have "credit (selectedKeys templates new) (Some c) = []"
    by (simp add: credit_def)
  with a show "cycleEffect templates new True t (Some c) =
      (if set (selectedKeys templates new) \<subseteq> {key t} \<and> selectedKeys templates new \<noteq> []
       then (Some \<lparr>completed = [], selectedWorkouts = selectedKeys templates new\<rparr>,
             Some (CycleComplete [key t] (selectedKeys templates new)))
       else (Some \<lparr>completed = [key t],
                   selectedWorkouts = selectedKeys templates new\<rparr>, None))"
    by (simp add: cycleEffect_step Let_def)
next
  assume a: "isIncluded new t
    \<and> set (selectedKeys templates new) = set (selectedWorkouts c)"
  then have sel: "selectedKeys templates new = selectedWorkouts c"
    using selectedKeys_same_set [OF assms(1), of new old] assms(2) by simp
  then have "credit (selectedKeys templates new) (Some c) = completed c"
    by (simp add: credit_def)
  with a sel show "cycleEffect templates new True t (Some c) =
      (if key t \<in> set (completed c) then (Some c, None)
       else if set (selectedWorkouts c) \<subseteq> set (completed c) \<union> {key t}
               \<and> selectedWorkouts c \<noteq> []
       then (Some \<lparr>completed = [], selectedWorkouts = selectedWorkouts c\<rparr>,
             Some (CycleComplete (completed c @ [key t]) (selectedWorkouts c)))
       else (Some \<lparr>completed = completed c @ [key t],
                   selectedWorkouts = selectedWorkouts c\<rparr>, None))"
    by (simp add: cycleEffect_step Let_def)
qed

section \<open>Completing the same workout again\<close>

lemma getCurrentCycle_existing:
  "current tbl = Some c \<Longrightarrow> getCurrentCycle tbl = (c, tbl)"
  by (simp add: getCurrentCycle_def)

lemma updateCycleProgress_duplicate:
  "current tbl = Some c \<Longrightarrow> k \<in> set (completedWorkouts c) \<Longrightarrow>
    updateCycleProgress k tbl = (\<lparr>cycleComplete = False, newCycleNumber = None\<rparr>, tbl)"
  by (simp add: updateCycleProgress_def getCurrentCycle_existing)

lemma updateCycleProgress_open:
  assumes "\<not> cycleComplete (fst (updateCycleProgress k tbl))"
  shows "\<exists>c. current (snd (updateCycleProgress k tbl)) = Some c \<and> k \<in> set (completedWorkouts c)"
  using assms
  by (cases "current tbl")
    (auto simp add: updateCycleProgress_def getCurrentCycle_def Let_def
      ItemSchemas_currentCycle_def split: if_splits)

text \<open>
  Claim C5, as amended. A completion of a key that is already among the completed keys
  changes nothing and closes nothing (in the client, with the selection as stored). When
  a key is completed twice in a row, the second completion changes nothing and closes
  nothing provided the first one did not close the cycle.
\<close>

theorem duplicate_completion_noop:
  "(selectedWorkouts c = selectedKeys templates cfg \<and> key t \<in> set (completed c) \<longrightarrow>
      cycleEffect templates cfg True t (Some c) = (Some c, None))
   \<and> (snd (cycleEffect templates cfg True t stored) = None \<longrightarrow>
        cycleEffect templates cfg True t (fst (cycleEffect templates cfg True t stored)) =
          (fst (cycleEffect templates cfg True t stored), None))
   \<and> (current tbl = Some cur \<and> k \<in> set (completedWorkouts cur) \<longrightarrow>
        updateCycleProgress k tbl = (\<lparr>cycleComplete = False, newCycleNumber = None\<rparr>, tbl))
   \<and> (\<not> cycleComplete (fst (updateCycleProgress k tbl)) \<longrightarrow>
        updateCycleProgress k (snd (updateCycleProgress k tbl)) =
          (\<lparr>cycleComplete = False, newCycleNumber = None\<rparr>, snd (updateCycleProgress k tbl)))"
proof (intro conjI impI)
  assume "selectedWorkouts c = selectedKeys templates cfg \<and> key t \<in> set (completed c)"
  then show "cycleEffect templates cfg True t (Some c) = (Some c, None)"
    by (simp add: cycleEffect_def resetIfSelectionChanged_def Let_def)
next
  assume open1: "snd (cycleEffect templates cfg True t stored) = None"
  show "cycleEffect templates cfg True t (fst (cycleEffect templates cfg True t stored)) =
      (fst (cycleEffect templates cfg True t stored), None)"
  proof (cases "isIncluded cfg t")
    case False
    then show ?thesis by (simp add: cycleEffect_not_included)
  next
    case True
    have "key t \<in> set (credit (selectedKeys templates cfg)
        (fst (cycleEffect templates cfg True t stored)))"
      using open1 unfolding cycleEffect_step [OF True]
      by (auto simp add: Let_def credit_def split: if_splits option.splits)
    then show ?thesis
      by (subst cycleEffect_step [OF True]) (simp add: Let_def)
  qed
next
  assume "current tbl = Some cur \<and> k \<in> set (completedWorkouts cur)"
  then show "updateCycleProgress k tbl = (\<lparr>cycleComplete = False, newCycleNumber = None\<rparr>, tbl)"
    by (simp add: updateCycleProgress_duplicate)
next
  assume "\<not> cycleComplete (fst (updateCycleProgress k tbl))"
  from updateCycleProgress_open [OF this]
  obtain c where "current (snd (updateCycleProgress k tbl)) = Some c"
    and "k \<in> set (completedWorkouts c)"
    by blast
  then show "updateCycleProgress k (snd (updateCycleProgress k tbl)) =
      (\<lparr>cycleComplete = False, newCycleNumber = None\<rparr>, snd (updateCycleProgress k tbl))"
    by (rule updateCycleProgress_duplicate)
qed

section \<open>Completed keys are selected keys\<close>

text \<open>
  Claim C6, as amended. In the client the inclusion holds when nothing is stored and for
  a fresh cycle, and a run of the effect for a template of the catalog preserves it,
  whatever the configuration and whether or not the workout is complete. The backend has
  no selection: a save that does not close the cycle leaves its key among the completed
  workouts, whatever the key.
\<close>

theorem client_completed_subset_selected:
  "cycle_ok None
   \<and> cycle_ok (Some \<lparr>completed = [], selectedWorkouts = sel\<rparr>)
   \<and> (t \<in> set templates \<and> cycle_ok stored \<longrightarrow>
        cycle_ok (fst (cycleEffect templates cfg b t stored)))
   \<and> (\<not> cycleComplete (fst (updateCycleProgress k tbl)) \<longrightarrow>
        k \<in> set (backend_credit (snd (updateCycleProgress k tbl))))"
proof (intro conjI impI)
  show "cycle_ok None"
    by (simp add: cycle_ok_def)
  show "cycle_ok (Some \<lparr>completed = [], selectedWorkouts = sel\<rparr>)"
    by (simp add: cycle_ok_def)
next
  assume a: "t \<in> set templates \<and> cycle_ok stored"
  show "cycle_ok (fst (cycleEffect templates cfg b t stored))"
  proof (cases "b \<and> isIncluded cfg t")
    case False
    then show ?thesis
      using a by (auto simp add: cycleEffect_not_complete cycleEffect_not_included)
  next
    case True
    then have inc: "isIncluded cfg t" and b: "b = True"
      by simp_all
    have k: "key t \<in> set (selectedKeys templates cfg)"
      using a inc by (simp add: selectedKeys_member)
    have c0: "set (credit (selectedKeys templates cfg) stored) \<subseteq> set (selectedKeys templates cfg)"
      using a by (auto simp add: credit_def cycle_ok_def split: option.splits)
    show ?thesis
      unfolding b cycleEffect_step [OF inc]
      using a k c0 by (auto simp add: Let_def cycle_ok_def)
  qed
next
  assume "\<not> cycleComplete (fst (updateCycleProgress k tbl))"
  from updateCycleProgress_open [OF this]
  show "k \<in> set (backend_credit (snd (updateCycleProgress k tbl)))"
    by (auto simp add: backend_credit_def)
qed

section \<open>One closure per cycle\<close>




lemma updateCycleProgress_closes_iff:
  "cycleComplete (fst (updateCycleProgress k tbl)) \<longleftrightarrow>
     k \<notin> set (backend_credit tbl)
     \<and> set mandatoryWorkouts \<subseteq> set (backend_credit tbl) \<union> {k}"
  by (cases "current tbl")
    (auto simp add: updateCycleProgress_def getCurrentCycle_def backend_credit_def Let_def
      ItemSchemas_currentCycle_def list_all_iff)

lemma backend_credit_after:
  "backend_credit (snd (updateCycleProgress k tbl)) =
    (if k \<in> set (backend_credit tbl) then backend_credit tbl
     else if set mandatoryWorkouts \<subseteq> set (backend_credit tbl) \<union> {k} then []
     else backend_credit tbl @ [k])"
  by (cases "current tbl")
    (auto simp add: updateCycleProgress_def getCurrentCycle_def backend_credit_def Let_def
      ItemSchemas_currentCycle_def list_all_iff)




section \<open>The catalog, evaluated\<close>

lemma catalog_fields:
  "key template_A_push_power = ''A_push_power''" "mandatory template_A_push_power"
  "key template_A_pull_width = ''A_pull_width''" "mandatory template_A_pull_width"
  "key template_B_push_hyp = ''B_push_hyp''" "mandatory template_B_push_hyp"
  "key template_B_pull_strength = ''B_pull_strength''" "mandatory template_B_pull_strength"
  "key template_C_leg_day = ''C_leg_day''" "mandatory template_C_leg_day"
  "key template_D_core_circuit = ''D_core_circuit''" "mandatory template_D_core_circuit"
  "key template_optional_core_activation = ''optional_core_activation''"
  "\<not> mandatory template_optional_core_activation"
  by (simp_all add: template_A_push_power_def template_A_pull_width_def
      template_B_push_hyp_def template_B_pull_strength_def template_C_leg_day_def
      template_D_core_circuit_def template_optional_core_activation_def)

lemma catalog_keys:
  "map key DEFAULT_TEMPLATES = six_keys @ [''optional_core_activation'']"
  by (simp add: DEFAULT_TEMPLATES_def catalog_fields six_keys_def)

lemma catalog_distinct: "distinct (map key DEFAULT_TEMPLATES)"
  unfolding catalog_keys by (simp add: six_keys_def)

lemma default_config_values:
  "default_config ''A_push_power'' = Some True"
  "default_config ''A_pull_width'' = Some True"
  "default_config ''B_push_hyp'' = Some True"
  "default_config ''B_pull_strength'' = Some True"
  "default_config ''C_leg_day'' = Some True"
  "default_config ''D_core_circuit'' = Some True"
  "default_config ''optional_core_activation'' = Some False"
  by (simp_all add: default_config_def defaultIncludeInAnalysis_def DEFAULT_TEMPLATES_def
      catalog_fields)

lemma default_included:
  "filter (isIncluded default_config) DEFAULT_TEMPLATES =
    [template_A_push_power, template_A_pull_width, template_B_push_hyp,
     template_B_pull_strength, template_C_leg_day, template_D_core_circuit]"
  by (simp add: DEFAULT_TEMPLATES_def isIncluded_def catalog_fields default_config_values)

lemma default_selected: "selectedKeys DEFAULT_TEMPLATES default_config = six_keys"
  by (simp add: selectedKeys_def default_included catalog_fields six_keys_def)

lemma unconfigured_selected: "selectedKeys DEFAULT_TEMPLATES Map.empty = six_keys"
  by (simp add: selectedKeys_def DEFAULT_TEMPLATES_def isIncluded_def catalog_fields
      six_keys_def)

lemma without_D_selected:
  "selectedKeys DEFAULT_TEMPLATES (default_config(''D_core_circuit'' \<mapsto> False)) =
    [''A_push_power'', ''A_pull_width'', ''B_push_hyp'', ''B_pull_strength'', ''C_leg_day'']"
  by (simp add: selectedKeys_def DEFAULT_TEMPLATES_def isIncluded_def catalog_fields
      default_config_values)

lemma backend_credit_empty: "backend_credit empty_table = []"
  by (simp add: backend_credit_def empty_table_def)

section \<open>Instances and counterexamples for the cycle trackers\<close>

theorem selection_change_resets_witness:
  "distinct (map key DEFAULT_TEMPLATES)
   \<and> selectedWorkouts one_done = selectedKeys DEFAULT_TEMPLATES default_config
   \<and> set (selectedKeys DEFAULT_TEMPLATES (default_config(''D_core_circuit'' \<mapsto> False)))
       \<noteq> set (selectedWorkouts one_done)
   \<and> resetIfSelectionChanged
        (selectedKeys DEFAULT_TEMPLATES (default_config(''D_core_circuit'' \<mapsto> False))) one_done =
       \<lparr>completed = [],
        selectedWorkouts =
          selectedKeys DEFAULT_TEMPLATES (default_config(''D_core_circuit'' \<mapsto> False))\<rparr>
   \<and> set (selectedKeys DEFAULT_TEMPLATES Map.empty) = set (selectedWorkouts one_done)
   \<and> resetIfSelectionChanged (selectedKeys DEFAULT_TEMPLATES Map.empty) one_done = one_done
   \<and> isIncluded (default_config(''D_core_circuit'' \<mapsto> False)) template_A_pull_width
   \<and> cycleEffect DEFAULT_TEMPLATES (default_config(''D_core_circuit'' \<mapsto> False)) True
        template_A_pull_width (Some one_done) =
       cycleEffect DEFAULT_TEMPLATES (default_config(''D_core_circuit'' \<mapsto> False)) True
        template_A_pull_width
        (Some (resetIfSelectionChanged
          (selectedKeys DEFAULT_TEMPLATES (default_config(''D_core_circuit'' \<mapsto> False)))
          one_done))
   \<and> \<not> (False \<and> isIncluded (default_config(''D_core_circuit'' \<mapsto> False))
              template_A_pull_width)
   \<and> cycleEffect DEFAULT_TEMPLATES (default_config(''D_core_circuit'' \<mapsto> False)) False
        template_A_pull_width (Some one_done) = (Some one_done, None)
   \<and> cycleEffect DEFAULT_TEMPLATES (default_config(''D_core_circuit'' \<mapsto> False)) True
        template_A_pull_width (Some one_done) =
       (Some \<lparr>completed = [''A_pull_width''],
              selectedWorkouts =
                [''A_push_power'', ''A_pull_width'', ''B_push_hyp'', ''B_pull_strength'',
                 ''C_leg_day'']\<rparr>, None)
   \<and> isIncluded Map.empty template_A_pull_width
   \<and> cycleEffect DEFAULT_TEMPLATES Map.empty True template_A_pull_width (Some one_done) =
       (Some \<lparr>completed = [''A_push_power'', ''A_pull_width''],
              selectedWorkouts =
                [''A_push_power'', ''A_pull_width'', ''B_push_hyp'', ''B_pull_strength'',
                 ''C_leg_day'', ''D_core_circuit'']\<rparr>, None)"
proof -
  have h1: "distinct (map key DEFAULT_TEMPLATES)"
    by (rule catalog_distinct)
  have h2: "selectedWorkouts one_done = selectedKeys DEFAULT_TEMPLATES default_config"
    by (simp add: default_selected one_done_def)
  have h3: "set (selectedKeys DEFAULT_TEMPLATES (default_config(''D_core_circuit'' \<mapsto> False)))
       \<noteq> set (selectedWorkouts one_done)"
  proof -
    have "''D_core_circuit'' \<in> set (selectedWorkouts one_done)"
      by (simp add: one_done_def six_keys_def)
    moreover have "''D_core_circuit'' \<notin>
        set (selectedKeys DEFAULT_TEMPLATES (default_config(''D_core_circuit'' \<mapsto> False)))"
      unfolding without_D_selected by simp
    ultimately show ?thesis
      by metis
  qed
  have h4: "set (selectedKeys DEFAULT_TEMPLATES Map.empty) = set (selectedWorkouts one_done)"
    by (simp add: unconfigured_selected one_done_def)
  have h5: "isIncluded (default_config(''D_core_circuit'' \<mapsto> False)) template_A_pull_width"
    by (simp add: isIncluded_def catalog_fields default_config_values)
  have h6: "\<not> (False \<and> isIncluded (default_config(''D_core_circuit'' \<mapsto> False))
      template_A_pull_width)"
    by simp
  have h7: "isIncluded Map.empty template_A_pull_width"
    by (simp add: isIncluded_def catalog_fields)
  note changed = selection_change_resets [OF h1 h2,
      where new = "default_config(''D_core_circuit'' \<mapsto> False)"
        and t = template_A_pull_width and b = False and stored = "Some one_done"]
  note same = selection_change_resets [OF h1 h2,
      where new = Map.empty and t = template_A_pull_width]
  have a: "resetIfSelectionChanged
        (selectedKeys DEFAULT_TEMPLATES (default_config(''D_core_circuit'' \<mapsto> False))) one_done =
       \<lparr>completed = [],
        selectedWorkouts =
          selectedKeys DEFAULT_TEMPLATES (default_config(''D_core_circuit'' \<mapsto> False))\<rparr>"
    using changed h3 by blast
  have b: "resetIfSelectionChanged (selectedKeys DEFAULT_TEMPLATES Map.empty) one_done = one_done"
    using same h4 by blast
  have c: "cycleEffect DEFAULT_TEMPLATES (default_config(''D_core_circuit'' \<mapsto> False)) True
        template_A_pull_width (Some one_done) =
       cycleEffect DEFAULT_TEMPLATES (default_config(''D_core_circuit'' \<mapsto> False)) True
        template_A_pull_width
        (Some (resetIfSelectionChanged
          (selectedKeys DEFAULT_TEMPLATES (default_config(''D_core_circuit'' \<mapsto> False)))
          one_done))"
    using changed h5 by blast
  have d: "cycleEffect DEFAULT_TEMPLATES (default_config(''D_core_circuit'' \<mapsto> False)) False
        template_A_pull_width (Some one_done) = (Some one_done, None)"
    using changed h6 by blast
  have e0: "cycleEffect DEFAULT_TEMPLATES (default_config(''D_core_circuit'' \<mapsto> False)) True
        template_A_pull_width (Some one_done) =
      (if set (selectedKeys DEFAULT_TEMPLATES (default_config(''D_core_circuit'' \<mapsto> False)))
            \<subseteq> {key template_A_pull_width}
          \<and> selectedKeys DEFAULT_TEMPLATES (default_config(''D_core_circuit'' \<mapsto> False)) \<noteq> []
       then (Some \<lparr>completed = [],
                   selectedWorkouts =
                     selectedKeys DEFAULT_TEMPLATES
                       (default_config(''D_core_circuit'' \<mapsto> False))\<rparr>,
             Some (CycleComplete [key template_A_pull_width]
               (selectedKeys DEFAULT_TEMPLATES (default_config(''D_core_circuit'' \<mapsto> False)))))
       else (Some \<lparr>completed = [key template_A_pull_width],
                   selectedWorkouts =
                     selectedKeys DEFAULT_TEMPLATES
                       (default_config(''D_core_circuit'' \<mapsto> False))\<rparr>, None))"
    using changed h5 h3 by blast
  have e: "cycleEffect DEFAULT_TEMPLATES (default_config(''D_core_circuit'' \<mapsto> False)) True
        template_A_pull_width (Some one_done) =
       (Some \<lparr>completed = [''A_pull_width''],
              selectedWorkouts =
                [''A_push_power'', ''A_pull_width'', ''B_push_hyp'', ''B_pull_strength'',
                 ''C_leg_day'']\<rparr>, None)"
    unfolding e0 without_D_selected by (simp add: catalog_fields)
  have f0: "cycleEffect DEFAULT_TEMPLATES Map.empty True template_A_pull_width (Some one_done) =
      (if key template_A_pull_width \<in> set (completed one_done) then (Some one_done, None)
       else if set (selectedWorkouts one_done)
                 \<subseteq> set (completed one_done) \<union> {key template_A_pull_width}
               \<and> selectedWorkouts one_done \<noteq> []
       then (Some \<lparr>completed = [], selectedWorkouts = selectedWorkouts one_done\<rparr>,
             Some (CycleComplete (completed one_done @ [key template_A_pull_width])
               (selectedWorkouts one_done)))
       else (Some \<lparr>completed = completed one_done @ [key template_A_pull_width],
                   selectedWorkouts = selectedWorkouts one_done\<rparr>, None))"
    using same h7 h4 by blast
  have f: "cycleEffect DEFAULT_TEMPLATES Map.empty True template_A_pull_width (Some one_done) =
       (Some \<lparr>completed = [''A_push_power'', ''A_pull_width''],
              selectedWorkouts =
                [''A_push_power'', ''A_pull_width'', ''B_push_hyp'', ''B_pull_strength'',
                 ''C_leg_day'', ''D_core_circuit'']\<rparr>, None)"
    unfolding f0 by (simp add: catalog_fields one_done_def six_keys_def)
  from h1 h2 h3 a h4 b h5 c h6 d e h7 f show ?thesis
    by (simp only: simp_thms)
qed

text \<open>
  Claim C4 as stated fails when the selection is changed while the workout on screen is
  not complete: the effect runs on the change and returns at once, and the stored cycle
  keeps the key completed under the old selection.
\<close>

theorem selection_change_alone_keeps_cycle:
  "set (selectedKeys DEFAULT_TEMPLATES (default_config(''D_core_circuit'' \<mapsto> False)))
     \<noteq> set (selectedWorkouts one_done)
   \<and> cycleEffect DEFAULT_TEMPLATES (default_config(''D_core_circuit'' \<mapsto> False)) False
        template_A_pull_width (Some one_done) = (Some one_done, None)
   \<and> completed one_done = [''A_push_power'']"
proof -
  have "''D_core_circuit'' \<in> set (selectedWorkouts one_done)"
    by (simp add: one_done_def six_keys_def)
  moreover have "''D_core_circuit'' \<notin>
      set (selectedKeys DEFAULT_TEMPLATES (default_config(''D_core_circuit'' \<mapsto> False)))"
    unfolding without_D_selected by simp
  ultimately have 1: "set (selectedKeys DEFAULT_TEMPLATES
      (default_config(''D_core_circuit'' \<mapsto> False))) \<noteq> set (selectedWorkouts one_done)"
    by metis
  have 2: "cycleEffect DEFAULT_TEMPLATES (default_config(''D_core_circuit'' \<mapsto> False)) False
      template_A_pull_width (Some one_done) = (Some one_done, None)"
    by (rule cycleEffect_not_complete)
  have 3: "completed one_done = [''A_push_power'']"
    by (simp add: one_done_def)
  from 1 2 3 show ?thesis
    by (simp only: simp_thms)
qed

text \<open>
  Claim C5 as stated fails when the first of the two completions closes the cycle: with
  five of the six selected workouts done, completing Workout D closes the cycle and
  leaves no completed key; completing it again records it in the new cycle. In the
  backend the same happens with the last of the listed keys.
\<close>

theorem duplicate_after_closure_counts:
  "cycleEffect DEFAULT_TEMPLATES default_config True template_D_core_circuit (Some five_done) =
     (Some \<lparr>completed = [], selectedWorkouts = six_keys\<rparr>,
      Some (CycleComplete six_keys six_keys))
   \<and> cycleEffect DEFAULT_TEMPLATES default_config True template_D_core_circuit
        (Some \<lparr>completed = [], selectedWorkouts = six_keys\<rparr>) =
       (Some \<lparr>completed = [''D_core_circuit''], selectedWorkouts = six_keys\<rparr>, None)
   \<and> map (\<lambda>r. (cycleComplete (fst r), backend_credit (snd r)))
        (updateCycleProgresses
          [''A_push_power'', ''A_pull_width'', ''B_push_hyp'', ''B_pull_strength'',
           ''B_pull_strength'']
          empty_table) =
       [(False, [''A_push_power'']),
        (False, [''A_push_power'', ''A_pull_width'']),
        (False, [''A_push_power'', ''A_pull_width'', ''B_push_hyp'']),
        (True, []),
        (False, [''B_pull_strength''])]"
proof -
  have inc: "isIncluded default_config template_D_core_circuit"
    by (simp add: isIncluded_def catalog_fields default_config_values)
  have 1: "cycleEffect DEFAULT_TEMPLATES default_config True template_D_core_circuit
      (Some five_done) =
     (Some \<lparr>completed = [], selectedWorkouts = six_keys\<rparr>,
      Some (CycleComplete six_keys six_keys))"
    unfolding cycleEffect_step [OF inc] default_selected
    by (simp add: credit_def five_done_def six_keys_def catalog_fields Let_def)
  have 2: "cycleEffect DEFAULT_TEMPLATES default_config True template_D_core_circuit
        (Some \<lparr>completed = [], selectedWorkouts = six_keys\<rparr>) =
       (Some \<lparr>completed = [''D_core_circuit''], selectedWorkouts = six_keys\<rparr>, None)"
    unfolding cycleEffect_step [OF inc] default_selected
    by (simp add: credit_def six_keys_def catalog_fields Let_def)
  have 3: "map (\<lambda>r. (cycleComplete (fst r), backend_credit (snd r)))
        (updateCycleProgresses
          [''A_push_power'', ''A_pull_width'', ''B_push_hyp'', ''B_pull_strength'',
           ''B_pull_strength'']
          empty_table) =
       [(False, [''A_push_power'']),
        (False, [''A_push_power'', ''A_pull_width'']),
        (False, [''A_push_power'', ''A_pull_width'', ''B_push_hyp'']),
        (True, []),
        (False, [''B_pull_strength''])]"
    by (simp add: updateCycleProgress_closes_iff backend_credit_after Let_def
        mandatoryWorkouts_def backend_credit_empty)
  from 1 2 3 show ?thesis by (simp only: simp_thms)
qed

theorem duplicate_completion_noop_witness:
  "selectedWorkouts one_done = selectedKeys DEFAULT_TEMPLATES default_config
   \<and> key template_A_push_power \<in> set (completed one_done)
   \<and> cycleEffect DEFAULT_TEMPLATES default_config True template_A_push_power (Some one_done) =
       (Some one_done, None)
   \<and> snd (cycleEffect DEFAULT_TEMPLATES default_config True template_A_push_power None) = None
   \<and> cycleEffect DEFAULT_TEMPLATES default_config True template_A_push_power
        (fst (cycleEffect DEFAULT_TEMPLATES default_config True template_A_push_power None)) =
       (fst (cycleEffect DEFAULT_TEMPLATES default_config True template_A_push_power None), None)
   \<and> current table_one_done =
       Some \<lparr>cycleNumber = 1, completedWorkouts = [''A_push_power''],
             remainingWorkouts = [''A_pull_width'', ''B_push_hyp'', ''B_pull_strength'']\<rparr>
   \<and> updateCycleProgress ''A_push_power'' table_one_done =
       (\<lparr>cycleComplete = False, newCycleNumber = None\<rparr>, table_one_done)
   \<and> \<not> cycleComplete (fst (updateCycleProgress ''A_push_power'' empty_table))
   \<and> updateCycleProgress ''A_push_power''
        (snd (updateCycleProgress ''A_push_power'' empty_table)) =
       (\<lparr>cycleComplete = False, newCycleNumber = None\<rparr>,
        snd (updateCycleProgress ''A_push_power'' empty_table))"
proof -
  have h1: "selectedWorkouts one_done = selectedKeys DEFAULT_TEMPLATES default_config"
    by (simp add: default_selected one_done_def)
  have h2: "key template_A_push_power \<in> set (completed one_done)"
    by (simp add: catalog_fields one_done_def)
  have inc: "isIncluded default_config template_A_push_power"
    by (simp add: isIncluded_def catalog_fields default_config_values)
  have h3: "snd (cycleEffect DEFAULT_TEMPLATES default_config True template_A_push_power None) = None"
    unfolding cycleEffect_step [OF inc] default_selected
    by (simp add: credit_def six_keys_def catalog_fields Let_def)
  have h4: "current table_one_done =
       Some \<lparr>cycleNumber = 1, completedWorkouts = [''A_push_power''],
             remainingWorkouts = [''A_pull_width'', ''B_push_hyp'', ''B_pull_strength'']\<rparr>"
    by (simp add: table_one_done_def)
  have h5: "\<not> cycleComplete (fst (updateCycleProgress ''A_push_power'' empty_table))"
    by (simp add: updateCycleProgress_closes_iff backend_credit_empty mandatoryWorkouts_def)
  note inst = duplicate_completion_noop [where c = one_done and templates = DEFAULT_TEMPLATES
      and cfg = default_config and t = template_A_push_power and stored = None
      and k = "''A_push_power''"]
  have a: "cycleEffect DEFAULT_TEMPLATES default_config True template_A_push_power (Some one_done) =
       (Some one_done, None)"
    using inst h1 h2 by blast
  have b: "cycleEffect DEFAULT_TEMPLATES default_config True template_A_push_power
        (fst (cycleEffect DEFAULT_TEMPLATES default_config True template_A_push_power None)) =
       (fst (cycleEffect DEFAULT_TEMPLATES default_config True template_A_push_power None), None)"
    using inst h3 by blast
  have c: "updateCycleProgress ''A_push_power'' table_one_done =
       (\<lparr>cycleComplete = False, newCycleNumber = None\<rparr>, table_one_done)"
    using inst [where tbl = table_one_done and cur = "\<lparr>cycleNumber = 1,
        completedWorkouts = [''A_push_power''],
        remainingWorkouts = [''A_pull_width'', ''B_push_hyp'', ''B_pull_strength'']\<rparr>"] h4
    by simp
  have d: "updateCycleProgress ''A_push_power''
        (snd (updateCycleProgress ''A_push_power'' empty_table)) =
       (\<lparr>cycleComplete = False, newCycleNumber = None\<rparr>,
        snd (updateCycleProgress ''A_push_power'' empty_table))"
    using inst [where tbl = empty_table] h5 by blast
  from h1 h2 a h3 b h4 c h5 d show ?thesis
    by (simp only: simp_thms)
qed

text \<open>
  Claim C6 as stated fails in the backend: a request without \<open>isOptional\<close> for the
  optional workout of the catalog is saved as a workout that counts, and its key is put
  among the completed workouts of the current cycle, which is not one of the cycle's
  workouts.
\<close>

theorem backend_records_unlisted_key:
  "backend_credit (snd (postWorkouts ''optional_core_activation'' ''2025-08-25'' () None
      empty_table)) = [''optional_core_activation'']
   \<and> map_option remainingWorkouts (current (snd (postWorkouts ''optional_core_activation''
         ''2025-08-25'' () None empty_table))) = Some mandatoryWorkouts
   \<and> \<not> set (backend_credit (snd (postWorkouts ''optional_core_activation'' ''2025-08-25'' ()
         None empty_table))) \<subseteq> set mandatoryWorkouts"
proof -
  have run: "current (snd (postWorkouts ''optional_core_activation'' ''2025-08-25'' () None
      empty_table)) =
    Some \<lparr>cycleNumber = 1, completedWorkouts = [''optional_core_activation''],
          remainingWorkouts = mandatoryWorkouts\<rparr>"
    by (simp add: postWorkouts_def saveWorkout_def checkCycleCompletion_def
        updateCycleProgress_def getCurrentCycle_def ItemSchemas_currentCycle_def
        mandatoryWorkouts_def empty_table_def Let_def)
  have 3: "\<not> set [''optional_core_activation''] \<subseteq> set mandatoryWorkouts"
    by (simp add: mandatoryWorkouts_def)
  from run 3 show ?thesis
    by (simp add: backend_credit_def)
qed

theorem client_completed_subset_selected_witness:
  "template_A_pull_width \<in> set DEFAULT_TEMPLATES
   \<and> cycle_ok (Some one_done)
   \<and> cycle_ok (fst (cycleEffect DEFAULT_TEMPLATES default_config True template_A_pull_width
        (Some one_done)))
   \<and> \<not> cycleComplete (fst (updateCycleProgress ''optional_core_activation'' empty_table))
   \<and> ''optional_core_activation'' \<in> set (backend_credit (snd (updateCycleProgress ''optional_core_activation'' empty_table)))"
proof -
  have h1: "template_A_pull_width \<in> set DEFAULT_TEMPLATES"
    by (simp add: DEFAULT_TEMPLATES_def)
  have h2: "cycle_ok (Some one_done)"
    by (simp add: cycle_ok_def one_done_def six_keys_def)
  have h3: "\<not> cycleComplete (fst (updateCycleProgress ''optional_core_activation'' empty_table))"
    by (simp add: updateCycleProgress_closes_iff backend_credit_empty mandatoryWorkouts_def)
  note inst = client_completed_subset_selected [where t = template_A_pull_width
      and templates = DEFAULT_TEMPLATES and stored = "Some one_done" and cfg = default_config
      and b = True and k = "''optional_core_activation''" and tbl = empty_table]
  have a: "cycle_ok (fst (cycleEffect DEFAULT_TEMPLATES default_config True
      template_A_pull_width (Some one_done)))"
    using inst h1 h2 by blast
  have b: "''optional_core_activation'' \<in> set (backend_credit (snd (updateCycleProgress ''optional_core_activation'' empty_table)))"
    using inst h3 by blast
  from h1 h2 a h3 b show ?thesis
    by (simp only: simp_thms)
qed



section \<open>Rounding to a double\<close>

lemma round_half_even_of_int: "round_half_even (of_int z) = z"
  by (simp add: round_half_even_def)

lemma round_half_even_minus: "round_half_even (- x) = - round_half_even x"
proof -
  define f where "f = \<lfloor>x\<rfloor>"
  define r where "r = x - of_int f"
  have r0: "0 \<le> r" and r1: "r < 1"
    unfolding r_def f_def by linarith+
  have x: "x = of_int f + r"
    by (simp add: r_def)
  show ?thesis
  proof (cases "r = 0")
    case True
    then have "x = of_int f"
      using x by simp
    then have "- x = of_int (- f)"
      by simp
    then have "round_half_even (- x) = - f"
      by (simp only: round_half_even_of_int)
    moreover have "round_half_even x = f"
      using \<open>x = of_int f\<close> by (simp only: round_half_even_of_int)
    ultimately show ?thesis by simp
  next
    case False
    with r0 have rpos: "0 < r" by simp
    have fl: "\<lfloor>- x\<rfloor> = - f - 1"
    proof (rule floor_unique)
      show "of_int (- f - 1) \<le> - x"
        using x r1 by simp
      show "- x < of_int (- f - 1) + 1"
        using x rpos by simp
    qed
    have rem: "- x - of_int (- f - 1) = 1 - r"
      using x by simp
    have plain: "round_half_even x =
        (if r < 1 / 2 then f else if 1 / 2 < r then f + 1 else if even f then f else f + 1)"
      by (simp add: round_half_even_def Let_def f_def r_def)
    have neg: "round_half_even (- x) =
        (if 1 - r < 1 / 2 then - f - 1 else if 1 / 2 < 1 - r then - f
         else if even (- f - 1) then - f - 1 else - f)"
      unfolding round_half_even_def Let_def fl rem by simp
    consider "r < 1 / 2" | "1 / 2 < r" | "r = 1 / 2"
      by linarith
    then show ?thesis
    proof cases
      case 1
      then show ?thesis unfolding plain neg by simp
    next
      case 2
      then show ?thesis unfolding plain neg by simp
    next
      case 3
      then show ?thesis unfolding plain neg by simp
    qed
  qed
qed

lemma to_double_minus: "to_double (- x) = - to_double x"
  by (simp add: to_double_def binade_def Let_def round_half_even_minus)

lemma js_sub_swap: "js_sub a b = - js_sub b a"
proof -
  have "a - b = - (b - a)" by simp
  then show ?thesis
    unfolding js_sub_def by (simp only: to_double_minus)
qed

lemma ilog2_bounds: "0 < n \<Longrightarrow> 2 ^ ilog2 n \<le> n \<and> n < 2 ^ Suc (ilog2 n)"
proof (induction n rule: ilog2.induct)
  case (1 n)
  show ?case
  proof (cases "n < 2")
    case True
    with 1 show ?thesis by simp
  next
    case False
    then have "0 < n div 2" by simp
    with 1 False have IH: "2 ^ ilog2 (n div 2) \<le> n div 2 \<and> n div 2 < 2 ^ Suc (ilog2 (n div 2))"
      by simp
    have e: "ilog2 n = Suc (ilog2 (n div 2))"
      using False by simp
    show ?thesis
      unfolding e using IH by (simp del: ilog2.simps) linarith
  qed
qed

lemma ilog2_less: "0 < n \<Longrightarrow> n < 2 ^ k \<Longrightarrow> ilog2 n < k"
proof -
  assume n: "0 < n" and k: "n < 2 ^ k"
  from ilog2_bounds [OF n] k have "(2::nat) ^ ilog2 n < 2 ^ k"
    by linarith
  then show ?thesis
    by (simp del: ilog2.simps)
qed

lemma to_double_of_nat:
  assumes "n < 2 ^ 53"
  shows "to_double (of_nat n) = of_nat n"
proof (cases "n = 0")
  case True
  then show ?thesis by (simp add: to_double_def)
next
  case False
  then have n: "0 < n" by simp
  define e where "e = ilog2 n"
  have e: "e < 53"
    unfolding e_def using n assms by (rule ilog2_less)
  define k where "k = 52 - e"
  have ke: "int e - 52 = - int k" "k + e = 52"
    using e by (simp_all add: k_def)
  have one: "(1::rat) \<le> \<bar>of_nat n\<bar>"
    using n by simp
  have b: "binade (of_nat n) = int e"
    using one by (simp add: binade_def e_def del: ilog2.simps)
  have p: "pow2 (int e - 52) = 1 / 2 ^ k"
    unfolding ke by (cases "k = 0") (simp_all add: pow2_def)
  have "of_nat n / (1 / 2 ^ k) = (of_int (int n * 2 ^ k) :: rat)"
    by simp
  then have "round_half_even (of_nat n / (1 / 2 ^ k)) = int n * 2 ^ k"
    by (simp only: round_half_even_of_int)
  then show ?thesis
    using False by (simp add: to_double_def Let_def b p del: ilog2.simps)
qed

lemma sum_exact:
  "s + sum_list xs < 2 ^ 53 \<Longrightarrow>
    fold (\<lambda>b a. js_add a b) (map of_nat xs) (of_nat s) = of_nat (s + sum_list xs)"
proof (induction xs arbitrary: s)
  case Nil
  then show ?case by simp
next
  case (Cons x xs)
  then have "s + x < 2 ^ 53"
    by simp
  then have "js_add (of_nat s) (of_nat x) = of_nat (s + x)"
    unfolding js_add_def using to_double_of_nat [of "s + x"] by simp
  moreover have "(s + x) + sum_list xs < 2 ^ 53"
    using Cons.prems by (simp add: add.assoc)
  ultimately show ?case
    using Cons.IH [of "s + x"] by (simp add: add.assoc)
qed

lemma average_rounded_mean:
  assumes "sum_list xs < 2 ^ 53"
  shows "average xs = to_double (mean xs)"
proof -
  have "fold (\<lambda>b a. js_add a b) (map of_nat xs) (of_nat 0) = of_nat (0 + sum_list xs)"
    using assms by (intro sum_exact) simp
  then show ?thesis
    by (simp add: average_def mean_def js_div_def)
qed

lemma sum_list_take_drop_le:
  fixes xs :: "nat list"
  shows "sum_list (take n xs) \<le> sum_list xs" and "sum_list (drop n xs) \<le> sum_list xs"
proof -
  have "sum_list xs = sum_list (take n xs) + sum_list (drop n xs)"
    by (metis append_take_drop_id sum_list_append)
  then show "sum_list (take n xs) \<le> sum_list xs" and "sum_list (drop n xs) \<le> sum_list xs"
    by simp_all
qed

section \<open>The error of rounding\<close>

lemma round_half_even_close: "\<bar>of_int (round_half_even y) - y\<bar> \<le> 1 / 2"
proof -
  define f where "f = \<lfloor>y\<rfloor>"
  define r where "r = y - of_int f"
  have r0: "0 \<le> r" and r1: "r < 1"
    unfolding r_def f_def by linarith+
  have y: "y = of_int f + r"
    by (simp add: r_def)
  have "round_half_even y =
      (if r < 1 / 2 then f else if 1 / 2 < r then f + 1 else if even f then f else f + 1)"
    by (simp add: round_half_even_def Let_def f_def r_def)
  then show ?thesis
    using r0 r1 y by (auto simp add: abs_le_iff)
qed

lemma pow2_pos: "0 < pow2 e"
  by (simp add: pow2_def)

lemma pow2_diff: "pow2 (e - 52) = pow2 e / 2 ^ 52"
proof -
  have p: "pow2 i = 2 powi i" for i
    by (simp add: pow2_def power_int_def inverse_eq_divide power_one_over)
  show ?thesis
    unfolding p by (simp add: power_int_diff)
qed

lemma pow2_neg: "pow2 (- int (Suc k)) = 1 / 2 ^ Suc k"
  by (simp add: pow2_def nat_add_distrib)

lemma binade_le:
  assumes "x \<noteq> 0"
  shows "pow2 (binade x) \<le> \<bar>x\<bar>"
proof (cases "1 \<le> \<bar>x\<bar>")
  case True
  define m where "m = nat \<lfloor>\<bar>x\<bar>\<rfloor>"
  have m: "0 < m"
    using True by (simp add: m_def)
  have "(of_nat m :: rat) \<le> \<bar>x\<bar>"
    using True by (simp add: m_def)
  moreover have "2 ^ ilog2 m \<le> m"
    using ilog2_bounds [OF m] by simp
  then have "(2 :: rat) ^ ilog2 m \<le> of_nat m"
    by (metis of_nat_le_iff of_nat_numeral of_nat_power)
  ultimately have "(2 :: rat) ^ ilog2 m \<le> \<bar>x\<bar>"
    by linarith
  then show ?thesis
    using True by (simp add: binade_def pow2_def m_def del: ilog2.simps)
next
  case False
  then have small: "\<bar>x\<bar> < 1" by simp
  have pos: "0 < \<bar>x\<bar>" using assms by simp
  define c where "c = \<lceil>1 / \<bar>x\<bar>\<rceil>"
  have "1 < 1 / \<bar>x\<bar>"
    using small pos by (simp add: field_simps)
  then have c2: "2 \<le> c"
    unfolding c_def by linarith
  define m where "m = nat (c - 1)"
  have m: "0 < m"
    using c2 by (simp add: m_def)
  have "m < 2 ^ Suc (ilog2 m)"
    using ilog2_bounds [OF m] by simp
  then have "m + 1 \<le> 2 ^ Suc (ilog2 m)"
    by simp
  then have "(of_nat (m + 1) :: rat) \<le> 2 ^ Suc (ilog2 m)"
    by (metis of_nat_le_iff of_nat_numeral of_nat_power)
  moreover have "(of_nat (m + 1) :: rat) = of_int c"
    using c2 by (simp add: m_def)
  moreover have "1 / \<bar>x\<bar> \<le> of_int c"
    unfolding c_def by linarith
  ultimately have "1 / \<bar>x\<bar> \<le> 2 ^ Suc (ilog2 m)"
    by linarith
  then have "1 / 2 ^ Suc (ilog2 m) \<le> \<bar>x\<bar>"
    using pos by (simp add: field_simps del: power_Suc)
  then have low: "pow2 (- int (Suc (ilog2 m))) \<le> \<bar>x\<bar>"
    by (simp only: pow2_neg)
  have "binade x = - int (Suc (ilog2 m))"
    using False by (simp add: binade_def m_def c_def del: ilog2.simps)
  with low show ?thesis
    by (simp only:)
qed

lemma to_double_close: "\<bar>to_double x - x\<bar> \<le> \<bar>x\<bar> / 2 ^ 53"
proof (cases "x = 0")
  case True
  then show ?thesis by (simp add: to_double_def)
next
  case False
  define u where "u = pow2 (binade x - 52)"
  have u: "0 < u"
    unfolding u_def by (rule pow2_pos)
  have ule: "u \<le> \<bar>x\<bar> / 2 ^ 52"
    unfolding u_def pow2_diff using binade_le [OF False] by (simp add: field_simps)
  have "to_double x - x = (of_int (round_half_even (x / u)) - x / u) * u"
    using False u by (simp add: to_double_def Let_def u_def [symmetric] field_simps)
  then have "\<bar>to_double x - x\<bar> = \<bar>of_int (round_half_even (x / u)) - x / u\<bar> * u"
    using u by (simp add: abs_mult)
  also have "\<dots> \<le> 1 / 2 * u"
    using round_half_even_close [of "x / u"] u by (intro mult_right_mono) simp_all
  also have "\<dots> \<le> \<bar>x\<bar> / 2 ^ 53"
    using ule by simp
  finally show ?thesis .
qed

lemma rounded_difference_close:
  assumes "0 \<le> a" and "0 \<le> b"
  shows "\<bar>to_double (to_double b - to_double a) - (b - a)\<bar> \<le> 3 * (a + b) / 2 ^ 53"
proof -
  define fa where "fa = to_double a"
  define fb where "fb = to_double b"
  define da where "da = a / 2 ^ 53"
  define db where "db = b / 2 ^ 53"
  have da: "0 \<le> da" "da \<le> a" and db: "0 \<le> db" "db \<le> b"
    using assms by (simp_all add: da_def db_def field_simps)
  have ea: "\<bar>fa - a\<bar> \<le> da"
    using to_double_close [of a] assms by (simp add: fa_def da_def)
  have eb: "\<bar>fb - b\<bar> \<le> db"
    using to_double_close [of b] assms by (simp add: fb_def db_def)
  have y: "\<bar>fb - fa\<bar> \<le> 2 * (a + b)"
    using ea eb da db assms by (auto simp add: abs_le_iff)
  have "\<bar>to_double (fb - fa) - (fb - fa)\<bar> \<le> \<bar>fb - fa\<bar> / 2 ^ 53"
    by (rule to_double_close)
  also have "\<dots> \<le> 2 * (a + b) / 2 ^ 53"
    using y by (simp add: divide_right_mono)
  also have "\<dots> = 2 * da + 2 * db"
    by (simp add: da_def db_def field_simps)
  finally have ed: "\<bar>to_double (fb - fa) - (fb - fa)\<bar> \<le> 2 * da + 2 * db" .
  have "\<bar>to_double (fb - fa) - (b - a)\<bar> \<le> 3 * da + 3 * db"
    using ed ea eb by (auto simp add: abs_le_iff)
  also have "\<dots> = 3 * (a + b) / 2 ^ 53"
    by (simp add: da_def db_def field_simps)
  finally show ?thesis
    by (simp only: fa_def fb_def)
qed

lemma mean_le_sum:
  fixes xs :: "nat list"
  shows "0 \<le> mean xs" and "mean xs \<le> of_nat (sum_list xs)"
proof -
  show "0 \<le> mean xs"
    by (simp add: mean_def)
  show "mean xs \<le> of_nat (sum_list xs)"
  proof (cases "xs = []")
    case True
    then show ?thesis by (simp add: mean_def)
  next
    case False
    then have one: "(1 :: rat) \<le> of_nat (length xs)"
      by (cases xs) simp_all
    then have n: "(0 :: rat) < of_nat (length xs)"
      by linarith
    have "of_nat (sum_list xs) * 1 \<le> of_nat (sum_list xs) * (of_nat (length xs) :: rat)"
      using one by (intro mult_left_mono) simp_all
    then show ?thesis
      unfolding mean_def by (simp only: pos_divide_le_eq [OF n] mult_1_right)
  qed
qed

lemma exact_and_rounded_difference:
  fixes xs ys :: "nat list"
  assumes "xs \<noteq> []" and "ys \<noteq> []"
    and "6 * (length xs * length ys) * (sum_list xs + sum_list ys) < 2 ^ 53"
  shows "1 / 2 < mean ys - mean xs \<Longrightarrow>
           1 / 2 < to_double (to_double (mean ys) - to_double (mean xs))"
    and "1 / 2 < to_double (to_double (mean ys) - to_double (mean xs)) \<Longrightarrow>
           1 / 2 \<le> mean ys - mean xs"
proof -
  define p where "p = length xs"
  define q where "q = length ys"
  define A where "A = sum_list xs"
  define B where "B = sum_list ys"
  define D :: rat where "D = 2 * of_nat p * of_nat q"
  define N :: int where "N = 2 * int B * int p - 2 * int A * int q - int p * int q"
  define x where "x = mean ys - mean xs"
  define d where "d = to_double (to_double (mean ys) - to_double (mean xs))"
  define E :: rat where "E = 3 * of_nat (A + B) / 2 ^ 53"
  have p: "0 < p" and q: "0 < q"
    using assms(1,2) by (simp_all add: p_def q_def)
  have D: "0 < D"
    using p q by (simp add: D_def)
  have frac: "x - 1 / 2 = of_int N / D"
    using p q by (simp add: x_def mean_def N_def D_def p_def q_def A_def B_def field_simps)
  have "mean xs + mean ys \<le> of_nat (A + B)"
    using mean_le_sum(2) [of xs] mean_le_sum(2) [of ys] by (simp add: A_def B_def)
  then have "3 * (mean xs + mean ys) / 2 ^ 53 \<le> E"
    unfolding E_def by (intro divide_right_mono mult_left_mono) simp_all
  moreover have "\<bar>d - x\<bar> \<le> 3 * (mean xs + mean ys) / 2 ^ 53"
    unfolding d_def x_def
    by (rule rounded_difference_close) (rule mean_le_sum(1))+
  ultimately have close: "\<bar>d - x\<bar> \<le> E"
    by linarith
  have "6 * (p * q) * (A + B) < 2 ^ 53"
    using assms(3) by (simp add: p_def q_def A_def B_def)
  then have "(of_nat (6 * (p * q) * (A + B)) :: rat) < of_nat (2 ^ 53)"
    by (simp only: of_nat_less_iff)
  then have "3 * of_nat (A + B) * D < (2 :: rat) ^ 53"
    by (simp add: D_def mult_ac)
  then have small: "E < 1 / D"
    using D by (simp add: E_def field_simps)
  show "1 / 2 < d" if "1 / 2 < x"
  proof -
    from that have "0 < x - 1 / 2"
      by simp
    then have "0 < of_int N / D"
      by (simp only: frac)
    then have "0 < (of_int N :: rat)"
      using D by (simp add: zero_less_divide_iff)
    then have "1 \<le> N"
      by simp
    then have "(1 :: rat) \<le> of_int N"
      by (metis of_int_1_le_iff)
    then have "1 / D \<le> of_int N / D"
      using D by (simp add: divide_right_mono)
    then have "1 / D \<le> x - 1 / 2"
      by (simp only: frac)
    with small close show ?thesis
      by (auto simp add: abs_le_iff)
  qed
  show "1 / 2 \<le> x" if "1 / 2 < d"
  proof -
    from that small close have "- (1 / D) < x - 1 / 2"
      by (auto simp add: abs_le_iff)
    then have "- (1 / D) < of_int N / D"
      by (simp only: frac)
    then have "(- 1 :: rat) < of_int N"
      using D by (simp add: field_simps)
    then have "- 1 < N"
      by (metis of_int_less_iff of_int_minus of_int_1)
    then have "(0 :: rat) \<le> of_int N"
      by simp
    then have "0 \<le> of_int N / D"
      using D by simp
    then have "0 \<le> x - 1 / 2"
      by (simp only: frac)
    then show ?thesis
      by simp
  qed
qed

section \<open>The RPE trend\<close>

text \<open>
  Claim C7 as stated fails where rounding matters. In the twelve ratings below the mean
  of the second half exceeds the mean of the first half by one half exactly, not by more;
  the two means are not doubles, the rounded ones differ by more than one half, and the
  trend computed is increasing.
\<close>

theorem trend_boundary_rounding:
  "calculateTrend [8, 8, 8, 8, 8, 7, 9, 9, 8, 8, 8, 8] = increasing
   \<and> mean (drop 6 [8, 8, 8, 8, 8, 7, 9, 9, 8, 8, 8, 8])
       - mean (take 6 [8, 8, 8, 8, 8, 7, 9, 9, 8, 8, 8, 8]) = 1 / 2"
proof -
  have 1: "calculateTrend [8, 8, 8, 8, 8, 7, 9, 9, 8, 8, 8, 8] = increasing"
    by code_simp
  have 2: "mean (drop 6 [8, 8, 8, 8, 8, 7, 9, 9, 8, 8, 8, 8])
       - mean (take 6 [8, 8, 8, 8, 8, 7, 9, 9, 8, 8, 8, 8]) = 1 / 2"
    by (simp add: mean_def)
  from 1 2 show ?thesis by simp
qed

text \<open>
  Claim C7, as amended. For ratings whose sum is below \<open>2^53\<close> (every sum of the loop is
  then exact): a sequence of fewer than two ratings is stable; the first half has
  \<open>floor(n/2)\<close> ratings and the second half the rest, one more when \<open>n\<close> is odd; each
  half's mean is rounded to a double, and so is their difference; the trend is increasing
  exactly when the rounded difference second minus first exceeds 0.5, decreasing exactly
  when the rounded difference first minus second exceeds 0.5, and stable otherwise. With
  \<open>6 n^2\<close> times the sum below \<open>2^53\<close>, the exact means decide the trend except on the
  boundary: it is increasing if the mean of the second half exceeds that of the first by
  more than 0.5 and only if it exceeds it by at least 0.5, and likewise for decreasing.
  The four sequences of the specification give increasing, decreasing, stable and stable.
\<close>

theorem calculateTrend_rounded_means:
  assumes "sum_list vs < 2 ^ 53"
  shows "(length vs < 2 \<longrightarrow> calculateTrend vs = stable)
    \<and> length (take (length vs div 2) vs) = length vs div 2
    \<and> length (drop (length vs div 2) vs) = length vs div 2 + length vs mod 2
    \<and> (2 \<le> length vs \<longrightarrow>
         (calculateTrend vs = increasing \<longleftrightarrow>
            1 / 2 < to_double (to_double (mean (drop (length vs div 2) vs))
                               - to_double (mean (take (length vs div 2) vs))))
       \<and> (calculateTrend vs = decreasing \<longleftrightarrow>
            1 / 2 < to_double (to_double (mean (take (length vs div 2) vs))
                               - to_double (mean (drop (length vs div 2) vs))))
       \<and> (calculateTrend vs = stable \<longleftrightarrow>
            \<not> 1 / 2 < to_double (to_double (mean (drop (length vs div 2) vs))
                                 - to_double (mean (take (length vs div 2) vs)))
            \<and> \<not> 1 / 2 < to_double (to_double (mean (take (length vs div 2) vs))
                                   - to_double (mean (drop (length vs div 2) vs)))))
    \<and> (2 \<le> length vs \<and> 6 * (length vs * length vs) * sum_list vs < 2 ^ 53 \<longrightarrow>
         (1 / 2 < mean (drop (length vs div 2) vs) - mean (take (length vs div 2) vs) \<longrightarrow>
            calculateTrend vs = increasing)
       \<and> (calculateTrend vs = increasing \<longrightarrow>
            1 / 2 \<le> mean (drop (length vs div 2) vs) - mean (take (length vs div 2) vs))
       \<and> (1 / 2 < mean (take (length vs div 2) vs) - mean (drop (length vs div 2) vs) \<longrightarrow>
            calculateTrend vs = decreasing)
       \<and> (calculateTrend vs = decreasing \<longrightarrow>
            1 / 2 \<le> mean (take (length vs div 2) vs) - mean (drop (length vs div 2) vs)))
    \<and> calculateTrend [6, 6, 8, 9] = increasing
    \<and> calculateTrend [9, 8, 6, 6] = decreasing
    \<and> calculateTrend [7] = stable
    \<and> calculateTrend [7, 7] = stable"
proof -
  let ?h = "length vs div 2"
  define up where
    "up = to_double (to_double (mean (drop ?h vs)) - to_double (mean (take ?h vs)))"
  define down where
    "down = to_double (to_double (mean (take ?h vs)) - to_double (mean (drop ?h vs)))"
  have first: "average (take ?h vs) = to_double (mean (take ?h vs))"
    using assms sum_list_take_drop_le(1) [of ?h vs]
    by (intro average_rounded_mean) linarith
  have second: "average (drop ?h vs) = to_double (mean (drop ?h vs))"
    using assms sum_list_take_drop_le(2) [of ?h vs]
    by (intro average_rounded_mean) linarith
  have opposite: "down = - up"
    using js_sub_swap [of "to_double (mean (take ?h vs))" "to_double (mean (drop ?h vs))"]
    by (simp add: up_def down_def js_sub_def)
  have code: "calculateTrend vs =
      (if length vs < 2 then stable
       else if 1 / 2 < up then increasing
       else if 1 / 2 < down then decreasing
       else stable)"
    unfolding calculateTrend_def Let_def first second js_sub_def up_def down_def
    by (rule refl)
  have short: "length vs < 2 \<longrightarrow> calculateTrend vs = stable"
    by (simp add: code)
  have len1: "length (take (length vs div 2) vs) = length vs div 2"
    by simp
  have len2: "length (drop (length vs div 2) vs) = length vs div 2 + length vs mod 2"
    by simp presburger
  have long: "2 \<le> length vs \<longrightarrow>
      (calculateTrend vs = increasing \<longleftrightarrow> 1 / 2 < up)
      \<and> (calculateTrend vs = decreasing \<longleftrightarrow> 1 / 2 < down)
      \<and> (calculateTrend vs = stable \<longleftrightarrow> \<not> 1 / 2 < up \<and> \<not> 1 / 2 < down)"
    unfolding code opposite by auto
  have exact: "(1 / 2 < mean (drop ?h vs) - mean (take ?h vs) \<longrightarrow> 1 / 2 < up)
      \<and> (1 / 2 < up \<longrightarrow> 1 / 2 \<le> mean (drop ?h vs) - mean (take ?h vs))
      \<and> (1 / 2 < mean (take ?h vs) - mean (drop ?h vs) \<longrightarrow> 1 / 2 < down)
      \<and> (1 / 2 < down \<longrightarrow> 1 / 2 \<le> mean (take ?h vs) - mean (drop ?h vs))"
    if n: "2 \<le> length vs" and bound: "6 * (length vs * length vs) * sum_list vs < 2 ^ 53"
  proof -
    have ne: "take ?h vs \<noteq> []" "drop ?h vs \<noteq> []"
      using n by auto
    have "length (take ?h vs) * length (drop ?h vs) \<le> length vs * length vs"
      by (intro mult_le_mono) simp_all
    moreover have total: "sum_list (take ?h vs) + sum_list (drop ?h vs) = sum_list vs"
      by (metis append_take_drop_id sum_list_append)
    ultimately have "6 * (length (take ?h vs) * length (drop ?h vs))
          * (sum_list (take ?h vs) + sum_list (drop ?h vs))
        \<le> 6 * (length vs * length vs) * sum_list vs"
      by (simp add: mult_le_mono)
    with bound have b1: "6 * (length (take ?h vs) * length (drop ?h vs))
          * (sum_list (take ?h vs) + sum_list (drop ?h vs)) < 2 ^ 53"
      by linarith
    then have b2: "6 * (length (drop ?h vs) * length (take ?h vs))
          * (sum_list (drop ?h vs) + sum_list (take ?h vs)) < 2 ^ 53"
      by (simp only: mult.commute add.commute)
    show ?thesis
      unfolding up_def down_def
      using exact_and_rounded_difference [OF ne(1) ne(2) b1]
        exact_and_rounded_difference [OF ne(2) ne(1) b2]
      by blast
  qed
  have exact': "2 \<le> length vs \<and> 6 * (length vs * length vs) * sum_list vs < 2 ^ 53 \<longrightarrow>
      (1 / 2 < mean (drop ?h vs) - mean (take ?h vs) \<longrightarrow> calculateTrend vs = increasing)
      \<and> (calculateTrend vs = increasing \<longrightarrow>
           1 / 2 \<le> mean (drop ?h vs) - mean (take ?h vs))
      \<and> (1 / 2 < mean (take ?h vs) - mean (drop ?h vs) \<longrightarrow> calculateTrend vs = decreasing)
      \<and> (calculateTrend vs = decreasing \<longrightarrow>
           1 / 2 \<le> mean (take ?h vs) - mean (drop ?h vs))"
    using exact long by blast
  have ex: "calculateTrend [6, 6, 8, 9] = increasing" "calculateTrend [9, 8, 6, 6] = decreasing"
    "calculateTrend [7] = stable" "calculateTrend [7, 7] = stable"
    by code_simp+
  from short len1 len2 long exact' ex show ?thesis
    unfolding up_def down_def by blast
qed

theorem calculateTrend_rounded_means_witness:
  "sum_list [6, 6, 8, 9 :: nat] < 2 ^ 53
   \<and> 2 \<le> length [6, 6, 8, 9 :: nat]
   \<and> 1 / 2 < to_double (to_double (mean (drop (length [6, 6, 8, 9 :: nat] div 2) [6, 6, 8, 9]))
                        - to_double (mean (take (length [6, 6, 8, 9 :: nat] div 2) [6, 6, 8, 9])))
   \<and> calculateTrend [6, 6, 8, 9] = increasing
   \<and> 6 * (length [9, 8, 6, 6 :: nat] * length [9, 8, 6, 6 :: nat]) * sum_list [9, 8, 6, 6 :: nat]
       < 2 ^ 53
   \<and> 2 \<le> length [9, 8, 6, 6 :: nat]
   \<and> 1 / 2 < mean (take (length [9, 8, 6, 6 :: nat] div 2) [9, 8, 6, 6])
               - mean (drop (length [9, 8, 6, 6 :: nat] div 2) [9, 8, 6, 6])
   \<and> calculateTrend [9, 8, 6, 6] = decreasing
   \<and> sum_list [7 :: nat] < 2 ^ 53
   \<and> length [7 :: nat] < 2
   \<and> calculateTrend [7] = stable"
proof -
  have h1: "sum_list [6, 6, 8, 9 :: nat] < 2 ^ 53"
    by simp
  have h2: "2 \<le> length [6, 6, 8, 9 :: nat]"
    by simp
  have h3: "1 / 2 < to_double (to_double (mean (drop (length [6, 6, 8, 9 :: nat] div 2) [6, 6, 8, 9]))
                        - to_double (mean (take (length [6, 6, 8, 9 :: nat] div 2) [6, 6, 8, 9])))"
    by code_simp
  have h4: "sum_list [7 :: nat] < 2 ^ 53"
    by simp
  have h5: "length [7 :: nat] < 2"
    by simp
  have h6: "6 * (length [9, 8, 6, 6 :: nat] * length [9, 8, 6, 6 :: nat])
      * sum_list [9, 8, 6, 6 :: nat] < 2 ^ 53"
    by simp
  have h7: "sum_list [9, 8, 6, 6 :: nat] < 2 ^ 53"
    by simp
  have h8: "2 \<le> length [9, 8, 6, 6 :: nat]"
    by simp
  have h9: "1 / 2 < mean (take (length [9, 8, 6, 6 :: nat] div 2) [9, 8, 6, 6])
               - mean (drop (length [9, 8, 6, 6 :: nat] div 2) [9, 8, 6, 6])"
    by (simp add: mean_def)
  have a: "calculateTrend [6, 6, 8, 9] = increasing"
    using calculateTrend_rounded_means [OF h1] h2 h3 by blast
  have c: "calculateTrend [9, 8, 6, 6] = decreasing"
    using calculateTrend_rounded_means [OF h7] h6 h8 h9 by blast
  have b: "calculateTrend [7] = stable"
    using calculateTrend_rounded_means [OF h4] h5 by blast
  from h1 h2 h3 a h6 h8 h9 c h4 h5 b show ?thesis
    by (simp only: simp_thms)
qed

end
